theory Spec2Isabelle
  imports Main "HOL-Library.AList" "HOL-Library.Log_Nat"
begin

section \<open>JavaScript strings\<close>

text \<open>
  A JavaScript string is modelled as a \<^typ>\<open>string\<close>: a list of code units, here the
  8-bit ones (ASCII and Latin-1), which is where the markup of the scraped site lives.
  \<open>length\<close> is JavaScript's \<open>.length\<close>.
\<close>

definition startsWith :: "string \<Rightarrow> string \<Rightarrow> bool" where
  "startsWith s p = (take (length p) s = p)"

text \<open>\<open>s.includes(p)\<close>: \<open>p\<close> occurs in \<open>s\<close> as a contiguous run.\<close>

fun js_includes :: "string \<Rightarrow> string \<Rightarrow> bool" where
  "js_includes [] p = (p = [])"
| "js_includes (c # cs) p = (startsWith (c # cs) p \<or> js_includes cs p)"

text \<open>
  White space as \<open>String.prototype.trim\<close> and the regular expression class \<open>\s\<close> read it,
  restricted to 8-bit code units: TAB, LF, VT, FF, CR, SP and NBSP.
\<close>

definition isWhiteSpace :: "char \<Rightarrow> bool" where
  "isWhiteSpace c = (of_char c \<in> {9, 10, 11, 12, 13, 32, 160 :: nat})"

definition trim :: "string \<Rightarrow> string" where
  "trim s = rev (dropWhile isWhiteSpace (rev (dropWhile isWhiteSpace s)))"

text \<open>The regular expression class \<open>\w\<close>: \<open>[A-Za-z0-9_]\<close>; \<open>\W\<close> is its complement.\<close>

definition isWordChar :: "char \<Rightarrow> bool" where
  "isWordChar c =
     (let n = (of_char c :: nat)
      in (48 \<le> n \<and> n \<le> 57) \<or> (65 \<le> n \<and> n \<le> 90) \<or> n = 95 \<or> (97 \<le> n \<and> n \<le> 122))"

definition isDigit :: "char \<Rightarrow> bool" where
  "isDigit c = (let n = (of_char c :: nat) in 48 \<le> n \<and> n \<le> 57)"

text \<open>
  \<open>String.prototype.toLowerCase\<close> on 8-bit code units: \<open>A\<close>--\<open>Z\<close> and the Latin-1
  capitals \<open>0xC0\<close>--\<open>0xDE\<close> (the multiplication sign \<open>0xD7\<close> apart) move up by 32, which
  sets bit 5; every other code unit stays.
\<close>

definition isUpperCase :: "char \<Rightarrow> bool" where
  "isUpperCase c =
     (let n = (of_char c :: nat)
      in (65 \<le> n \<and> n \<le> 90) \<or> (192 \<le> n \<and> n \<le> 222 \<and> n \<noteq> 215))"

fun lowerChar :: "char \<Rightarrow> char" where
  "lowerChar (Char b0 b1 b2 b3 b4 b5 b6 b7) =
     (if isUpperCase (Char b0 b1 b2 b3 b4 b5 b6 b7) then Char b0 b1 b2 b3 b4 True b6 b7
      else Char b0 b1 b2 b3 b4 b5 b6 b7)"

definition toLowerCase :: "string \<Rightarrow> string" where
  "toLowerCase s = map lowerChar s"

text \<open>
  \<open>s.split(sep)\<close> for a one-character separator: the pieces between the separators, the
  empty ones included; the empty string splits into one empty piece.
\<close>

fun split_char :: "char \<Rightarrow> string \<Rightarrow> string list" where
  "split_char sep [] = [[]]"
| "split_char sep (c # cs) =
     (if c = sep then [] # split_char sep cs
      else (case split_char sep cs of
              [] \<Rightarrow> [[c]]
            | p # ps \<Rightarrow> (c # p) # ps))"

text \<open>
  \<open>s.split(/X+/)\<close> for a character class \<open>X\<close> (\<open>isSep\<close>): the pieces between the maximal
  runs of separator characters. A run at the start or at the end of \<open>s\<close> leaves an empty
  piece there, as in JavaScript; the empty string splits into one empty piece.
\<close>

fun split_runs :: "(char \<Rightarrow> bool) \<Rightarrow> string \<Rightarrow> string list" where
  "split_runs isSep [] = [[]]"
| "split_runs isSep (c # cs) =
     (if isSep c then
        (case cs of
           [] \<Rightarrow> [[], []]
         | d # ds \<Rightarrow> if isSep d then split_runs isSep cs else [] # split_runs isSep cs)
      else (case split_runs isSep cs of
              [] \<Rightarrow> [[c]]
            | p # ps \<Rightarrow> (c # p) # ps))"

section \<open>What the scraper is given: transport, markup parser, digest\<close>

text \<open>
  A thrown value: an \<open>Error\<close> instance with its message, or any other value.
  \<open>error instanceof Error ? error.message : 'Unknown error'\<close> reads it.
\<close>

datatype exn = Error string | NonError

fun error_message :: "exn \<Rightarrow> string" where
  "error_message (Error m) = m"
| "error_message NonError = ''Unknown error''"

text \<open>
  An element of a parsed document, as far as the scraper reads it: its tag name, its
  attributes and its text content (descendants included).
\<close>

record elem =
  tagName :: string
  attribs :: "(string \<times> string) list"
  elem_text :: string

text \<open>
  A loaded document (cheerio's \<open>$\<close>) is the function from a selector to the elements it
  matches, in document order.
\<close>

type_synonym cheerio = "string \<Rightarrow> elem list"

text \<open>\<open>$(elem).attr(name)\<close>, and \<open>$(selector).text()\<close>: the texts of the matched elements, joined.\<close>

definition attr :: "elem \<Rightarrow> string \<Rightarrow> string option" where
  "attr e name = map_of (attribs e) name"

definition text_of :: "elem list \<Rightarrow> string" where
  "text_of es = concat (map elem_text es)"

section \<open>The data model (types.ts)\<close>

record CodeSnippet =
  language :: string
  code :: string

record ScrapeResult =
  success :: bool
  url :: string
  title :: string
  content :: string
  markdown :: "string option"
  codeSnippets :: "CodeSnippet list"
  wordCount :: nat
  characterCount :: nat
  keywords' :: "string list"
  topics :: "string list"
  error :: "string option"

record ScraperConfig =
  concurrency :: int
  delayMs :: int
  timeoutMs :: int
  maxRetries :: int
  rateLimitPerMinute :: int
  rateLimitPerHour :: int

record FCCCertification =
  cert_title :: string
  slug :: string
  cert_url :: string
  description :: string
  category :: string

text \<open>The record written to \<open>knowledge_content\<close> (\<open>contentData\<close> in \<open>saveContent\<close>).\<close>

record content_data =
  source_id :: string
  cd_url :: string
  cd_title :: string
  content_type :: string
  cd_content :: string
  cd_markdown :: "string option"
  code_snippets :: "CodeSnippet list"
  word_count :: nat
  character_count :: nat
  cd_keywords :: "string list"
  cd_topics :: "string list"
  content_hash :: string
  processed :: bool

text \<open>What \<open>select('id, content_hash')\<close> returns of a stored row.\<close>

record existing_row =
  row_id :: string
  row_hash :: "string option"

section \<open>JavaScript numbers\<close>

text \<open>
  Counters are natural numbers. The progress percentage is a double: a quotient and a
  product, each rounded to the nearest binary64 value, ties to even. A double is modelled
  as the rational it denotes. \<open>binade q\<close> is the exponent \<open>e\<close> with
  \<open>2^e \<le> q < 2^(e+1)\<close>, and \<open>fl\<close> keeps 53 significant bits. The model is exact in the
  normal range of binary64 (magnitudes from \<open>2^-1022\<close> up to \<open>2^1024\<close>), where every
  quotient \<open>k / n\<close> of counters with \<open>0 < k\<close> and its product with 100 lie; \<open>0\<close> is exact.
\<close>

definition round_half_even :: "rat \<Rightarrow> int" where
  "round_half_even y =
     (let f = \<lfloor>y\<rfloor>; d = y - of_int f
      in if d < 1 / 2 then f
         else if 1 / 2 < d then f + 1
         else if even f then f else f + 1)"

definition binade :: "rat \<Rightarrow> int" where
  "binade q =
     (let (a, b) = quotient_of q;
          d = int (floorlog 2 (nat a)) - int (floorlog 2 (nat b))
      in if 2 powi d \<le> q then d else d - 1)"

definition fl :: "rat \<Rightarrow> rat" where
  "fl q =
     (if q = 0 then 0
      else let e = binade \<bar>q\<bar> - 52
           in sgn q * of_int (round_half_even (\<bar>q\<bar> / 2 powi e)) * 2 powi e)"

definition js_div :: "rat \<Rightarrow> rat \<Rightarrow> rat" where
  "js_div a b = fl (a / b)"

definition js_mul :: "rat \<Rightarrow> rat \<Rightarrow> rat" where
  "js_mul a b = fl (a * b)"

text \<open>
  \<open>xs.slice(start, end)\<close>: a negative index counts from the end, and both are clamped to
  the array.
\<close>

definition slice_index :: "nat \<Rightarrow> int \<Rightarrow> nat" where
  "slice_index len i = (if i < 0 then nat (max (int len + i) 0) else min (nat i) len)"

definition js_slice :: "'a list \<Rightarrow> int \<Rightarrow> int \<Rightarrow> 'a list" where
  "js_slice xs start fin =
     (let k = slice_index (length xs) start; final = slice_index (length xs) fin
      in take (final - k) (drop k xs))"

text \<open>The decimal numeral of a counter, as a template string prints it.\<close>

fun digit_char :: "nat \<Rightarrow> char" where
  "digit_char n = char_of (48 + n)"

fun string_of_nat :: "nat \<Rightarrow> string" where
  "string_of_nat n =
     (if n < 10 then [digit_char n] else string_of_nat (n div 10) @ [digit_char (n mod 10)])"

declare string_of_nat.simps [simp del]

section \<open>The record store, the job record and the effects of a run\<close>

text \<open>
  The payloads of \<open>updateJob\<close>: the start of the run (\<open>total_urls\<close>, status \<open>running\<close>),
  the progress after one item, and the completion (status \<open>completed\<close>). The time stamps
  (\<open>new Date().toISOString()\<close>) are left out.
\<close>

record job_progress =
  urls_processed :: nat
  urls_failed :: nat
  progress_percentage :: rat
  items_scraped :: nat

datatype job_update = JobStarted nat | JobProgress job_progress | JobCompleted

text \<open>
  What a run does to the outside, in the order it does it: console output, the writes it
  sends to \<open>knowledge_content\<close>, the updates it sends to \<open>scraping_jobs\<close>, the pauses
  between batches and the calls of the progress callback.
\<close>

datatype event =
    ConsoleLog string
  | ConsoleError string "exn option"
  | ContentInsert content_data
  | ContentUpdate string content_data
  | JobUpdate string job_update
  | Delay int
  | OnProgress nat nat

text \<open>
  The transport (\<open>axios.get\<close>, which throws on a timeout, a network failure and a
  response outside 2xx, and else gives \<open>response.data\<close>), the markup parser
  (\<open>cheerio.load\<close>), the digest (\<open>crypto.createHash('sha256')\<close> with \<open>digest('hex')\<close>) and
  the Supabase client are not code of this repository: the scraper takes them as
  capabilities. \<open>'db\<close> is the state of the remote store. A Supabase call resolves to a
  response \<open>{ data, error, ... }\<close> or throws. Of a read the scraper takes the \<open>data\<close>
  (\<open>null\<close>, here \<open>None\<close>, when no single row matches and when the response carries an
  error); the response of a write it awaits and never reads, and the model keeps the
  \<open>error\<close> of that response. A write returns what it threw or resolved to, and the store
  after it.

  \<open>Array.prototype.sort\<close> is the engine's. ECMAScript fixes what it returns where the
  comparator is consistent on the elements and leaves the order to the engine where it is
  not: what the engine does there (\<open>engine_sort\<close>) is a capability too, here at the type
  of the entries \<open>extractKeywords\<close> sorts (see \<open>array_sort\<close> below).
\<close>

datatype jsval = JSNumber nat | JSString string

datatype response = Response "string option"

record 'db env =
  axios_get :: "string \<Rightarrow> exn + string"
  cheerio_load :: "string \<Rightarrow> exn + cheerio"
  sha256_hex :: "string \<Rightarrow> string"
  select_source_id :: "string \<Rightarrow> 'db \<Rightarrow> exn + string option"
  select_content :: "string \<Rightarrow> 'db \<Rightarrow> exn + existing_row option"
  update_content :: "string \<Rightarrow> content_data \<Rightarrow> 'db \<Rightarrow> (exn + response) \<times> 'db"
  insert_content :: "content_data \<Rightarrow> 'db \<Rightarrow> (exn + response) \<times> 'db"
  update_job :: "string \<Rightarrow> job_update \<Rightarrow> 'db \<Rightarrow> (exn + response) \<times> 'db"
  engine_sort :: "(string \<times> jsval \<Rightarrow> string \<times> jsval \<Rightarrow> int option)
                    \<Rightarrow> (string \<times> jsval) list \<Rightarrow> (string \<times> jsval) list"

text \<open>
  The state a run threads through: the scraper's own field \<open>sourceId\<close>, the remote
  store, and the effects so far (oldest first).
\<close>

record 'db world =
  sourceId :: "string option"
  db :: 'db
  trace :: "event list"

definition emit :: "event \<Rightarrow> 'db world \<Rightarrow> 'db world" where
  "emit ev w = w\<lparr>trace := trace w @ [ev]\<rparr>"

text \<open>One write sent to the store: the request is an effect, whatever comes back.\<close>

definition store_write ::
  "event \<Rightarrow> ('db \<Rightarrow> (exn + response) \<times> 'db) \<Rightarrow> 'db world \<Rightarrow> (exn + response) \<times> 'db world" where
  "store_write ev op w = (case op (db w) of (answer, d) \<Rightarrow> (answer, emit ev (w\<lparr>db := d\<rparr>)))"

section \<open>FCCScraper\<close>

definition FCC_BASE :: string where
  "FCC_BASE = ''https://www.freecodecamp.org''"

text \<open>\<open>config?.field || fallback\<close>: an absent field and the falsy \<open>0\<close> both give the fallback.\<close>

definition or_default :: "int option \<Rightarrow> int \<Rightarrow> int" where
  "or_default v d = (case v of None \<Rightarrow> d | Some n \<Rightarrow> if n = 0 then d else n)"

record PartialConfig =
  p_concurrency :: "int option"
  p_delayMs :: "int option"
  p_timeoutMs :: "int option"
  p_maxRetries :: "int option"
  p_rateLimitPerMinute :: "int option"
  p_rateLimitPerHour :: "int option"

definition no_config :: PartialConfig where
  "no_config = \<lparr>p_concurrency = None, p_delayMs = None, p_timeoutMs = None,
     p_maxRetries = None, p_rateLimitPerMinute = None, p_rateLimitPerHour = None\<rparr>"

definition new_FCCScraper :: "PartialConfig \<Rightarrow> ScraperConfig" where
  "new_FCCScraper config =
     \<lparr>concurrency = or_default (p_concurrency config) 3,
      delayMs = or_default (p_delayMs config) 1000,
      timeoutMs = or_default (p_timeoutMs config) 30000,
      maxRetries = or_default (p_maxRetries config) 3,
      rateLimitPerMinute = or_default (p_rateLimitPerMinute config) 60,
      rateLimitPerHour = or_default (p_rateLimitPerHour config) 1000\<rparr>"

subsection \<open>getCertificationPages\<close>

definition learn_links :: string where
  \<open>learn_links = ''a[href^="/learn/"]''\<close>

text \<open>
  The body of the \<open>each\<close> loop over the matched anchors: \<open>urls\<close> is the array the loop
  pushes to.
\<close>

fun push_links :: "string list \<Rightarrow> elem list \<Rightarrow> string list" where
  "push_links urls [] = urls"
| "push_links urls (e # es) =
     (case attr e ''href'' of
        None \<Rightarrow> push_links urls es
      | Some href \<Rightarrow>
          if href \<noteq> [] \<and> js_includes href ''/learn/'' then
            (let fullUrl = (if startsWith href ''http'' then href else FCC_BASE @ href)
             in if fullUrl \<in> set urls then push_links urls es
                else push_links (urls @ [fullUrl]) es)
          else push_links urls es)"

definition getCertificationPages :: "'db env \<Rightarrow> string \<Rightarrow> 'db world \<Rightarrow> string list \<times> 'db world" where
  "getCertificationPages env certUrl w =
     (case axios_get env certUrl of
        Inl e \<Rightarrow> ([certUrl], emit (ConsoleError (''Error getting pages from '' @ certUrl @ '':'') (Some e)) w)
      | Inr data \<Rightarrow>
          (case cheerio_load env data of
             Inl e \<Rightarrow> ([certUrl], emit (ConsoleError (''Error getting pages from '' @ certUrl @ '':'') (Some e)) w)
           | Inr dollar \<Rightarrow> (take 50 (push_links [certUrl] (dollar learn_links)), w)))"

subsection \<open>scrapePage\<close>

text \<open>
  \<open>cls.match(/language-(\w+)/)?.[1]\<close>: the leftmost place where \<open>language-\<close> is followed
  by a word character, and the maximal run of word characters there.
\<close>

fun match_language :: "string \<Rightarrow> string option" where
  "match_language [] = None"
| "match_language (c # cs) =
     (if startsWith (c # cs) ''language-'' \<and> takeWhile isWordChar (drop 9 (c # cs)) \<noteq> []
      then Some (takeWhile isWordChar (drop 9 (c # cs)))
      else match_language cs)"

definition snippet_language :: "elem \<Rightarrow> string" where
  "snippet_language e =
     (case attr e ''class'' of
        None \<Rightarrow> ''javascript''
      | Some cls \<Rightarrow>
          (case match_language cls of
             None \<Rightarrow> ''javascript''
           | Some l \<Rightarrow> if l = [] then ''javascript'' else l))"

text \<open>The \<open>each\<close> loop over \<open>pre code, .code-editor\<close>; \<open>acc\<close> is \<open>codeSnippets\<close>.\<close>

fun collect_snippets :: "CodeSnippet list \<Rightarrow> elem list \<Rightarrow> CodeSnippet list" where
  "collect_snippets acc [] = acc"
| "collect_snippets acc (e # es) =
     (let code = trim (elem_text e); language = snippet_language e
      in if code \<noteq> [] \<and> length code > 10
         then collect_snippets (acc @ [\<lparr>language = language, code = code\<rparr>]) es
         else collect_snippets acc es)"

text \<open>
  \<open>extractKeywords\<close>. The frequency table is a plain object: its own properties in
  insertion order, each a number or a string. Reading a word that is no own property
  falls through to \<open>Object.prototype\<close>; of the names a lower-cased token of word
  characters can be, it has \<open>constructor\<close> (the function \<open>Object\<close>, truthy, so that
  \<open>+ 1\<close> appends to its source text) and \<open>__proto__\<close> (an accessor whose setter ignores
  a string, so that the assignment adds nothing). \<open>count_word\<close> is the body of the
  \<open>forEach\<close>: \<open>frequency[word] = (frequency[word] || 0) + 1\<close>.
\<close>

definition count_word :: "(string \<times> jsval) list \<Rightarrow> string \<Rightarrow> (string \<times> jsval) list" where
  "count_word frequency word =
     (case map_of frequency word of
        Some (JSNumber n) \<Rightarrow> AList.update word (JSNumber (n + 1)) frequency
      | Some (JSString s) \<Rightarrow> AList.update word (JSString (s @ ''1'')) frequency
      | None \<Rightarrow>
          if word = ''__proto__'' then frequency
          else if word = ''constructor''
          then AList.update word (JSString ''function Object() { [native code] }1'') frequency
          else AList.update word (JSNumber 1) frequency)"

text \<open>
  \<open>Object.entries\<close> lists the own properties whose name is an array index (the decimal
  numeral, without leading zeros, of a number below \<open>2^32 - 1\<close>) first, in ascending
  numeric order, and the others after them in insertion order.
\<close>

definition digits_value :: "string \<Rightarrow> nat" where
  "digits_value s = foldl (\<lambda>n c. 10 * n + (of_char c - 48)) 0 s"

definition is_array_index :: "string \<Rightarrow> bool" where
  "is_array_index s =
     (s \<noteq> [] \<and> list_all isDigit s \<and> (s = ''0'' \<or> hd s \<noteq> CHR ''0'')
      \<and> digits_value s < 2 ^ 32 - 1)"

definition object_entries :: "(string \<times> jsval) list \<Rightarrow> (string \<times> jsval) list" where
  "object_entries obj =
     sort_key (\<lambda>kv. digits_value (fst kv)) (filter (\<lambda>kv. is_array_index (fst kv)) obj)
     @ filter (\<lambda>kv. \<not> is_array_index (fst kv)) obj"

text \<open>
  The comparator \<open>(a, b) => b[1] - a[1]\<close>: a difference of numbers, and \<open>NaN\<close> (here
  \<open>None\<close>) as soon as one side is a string that is no numeral.
\<close>

definition to_number :: "jsval \<Rightarrow> int option" where
  "to_number v = (case v of JSNumber n \<Rightarrow> Some (int n) | JSString s \<Rightarrow> None)"

definition by_frequency :: "string \<times> jsval \<Rightarrow> string \<times> jsval \<Rightarrow> int option" where
  "by_frequency a b =
     (case (to_number (snd b), to_number (snd a)) of
        (Some y, Some x) \<Rightarrow> Some (y - x)
      | _ \<Rightarrow> None)"

text \<open>
  \<open>Array.prototype.sort\<close> with a comparator, as ECMAScript defines it. The value of the
  comparator is read as a number, \<open>NaN\<close> as \<open>+0\<close>. The comparator is consistent on
  the elements when on them comparing equal (the value \<open>0\<close>) is reflexive, symmetric and
  transitive, and coming before (a value below \<open>0\<close>) and coming after (a value above
  \<open>0\<close>) are transitive. The elements are then sorted into the one order in which none
  comes after an element it comes before and those that compare equal keep their order
  (the sort is stable): \<open>stable_sort\<close> computes it by insertion, from the last element to
  the first. With any other comparator the order is the engine's choice.
\<close>

definition sort_compare :: "('a \<Rightarrow> 'a \<Rightarrow> int option) \<Rightarrow> 'a \<Rightarrow> 'a \<Rightarrow> int" where
  "sort_compare cmp x y = (case cmp x y of None \<Rightarrow> 0 | Some d \<Rightarrow> d)"

definition consistent :: "('a \<Rightarrow> 'a \<Rightarrow> int option) \<Rightarrow> 'a list \<Rightarrow> bool" where
  "consistent cmp xs =
     (\<forall>a\<in>set xs. \<forall>b\<in>set xs. \<forall>c\<in>set xs.
        sort_compare cmp a a = 0
        \<and> (sort_compare cmp a b = 0 \<longrightarrow> sort_compare cmp b a = 0)
        \<and> (sort_compare cmp a b = 0 \<and> sort_compare cmp b c = 0 \<longrightarrow> sort_compare cmp a c = 0)
        \<and> (sort_compare cmp a b < 0 \<and> sort_compare cmp b c < 0 \<longrightarrow> sort_compare cmp a c < 0)
        \<and> (sort_compare cmp a b > 0 \<and> sort_compare cmp b c > 0 \<longrightarrow> sort_compare cmp a c > 0))"

fun insert_sorted :: "('a \<Rightarrow> 'a \<Rightarrow> int option) \<Rightarrow> 'a \<Rightarrow> 'a list \<Rightarrow> 'a list" where
  "insert_sorted cmp x [] = [x]"
| "insert_sorted cmp x (y # ys) =
     (if sort_compare cmp x y \<le> 0 then x # y # ys else y # insert_sorted cmp x ys)"

definition stable_sort :: "('a \<Rightarrow> 'a \<Rightarrow> int option) \<Rightarrow> 'a list \<Rightarrow> 'a list" where
  "stable_sort cmp xs = foldr (insert_sorted cmp) xs []"

definition array_sort ::
  "'db env \<Rightarrow> (string \<times> jsval \<Rightarrow> string \<times> jsval \<Rightarrow> int option) \<Rightarrow> (string \<times> jsval) list
     \<Rightarrow> (string \<times> jsval) list" where
  "array_sort env cmp xs = (if consistent cmp xs then stable_sort cmp xs else engine_sort env cmp xs)"

text \<open>
  The tokens, their counts, and the keys of the first ten entries (\<open>slice(0, 10)\<close>) once
  sorted.
\<close>

definition keyword_tokens :: "string \<Rightarrow> string list" where
  "keyword_tokens contentStr =
     filter (\<lambda>word. length word > 3) (split_runs (\<lambda>c. \<not> isWordChar c) (toLowerCase contentStr))"

definition extractKeywords :: "'db env \<Rightarrow> string \<Rightarrow> string list" where
  "extractKeywords env contentStr =
     (let frequency = foldl count_word [] (keyword_tokens contentStr)
      in map fst (take 10 (array_sort env by_frequency (object_entries frequency))))"

text \<open>
  \<open>htmlToMarkdown\<close>: the headings, then the paragraphs, then the code blocks.
  \<open>parseInt(el.tagName[1])\<close> is the digit after the \<open>h\<close>; \<open>'#'.repeat(NaN)\<close> is empty.
\<close>

definition heading_level :: "elem \<Rightarrow> nat" where
  "heading_level el =
     (case tagName el of
        a # d # ds \<Rightarrow> if isDigit d then of_char d - 48 else 0
      | _ \<Rightarrow> 0)"

definition newline :: char where
  "newline = CHR 0x0A"

definition fence :: string where
  "fence = [CHR 0x60, CHR 0x60, CHR 0x60]"

definition htmlToMarkdown :: "cheerio \<Rightarrow> string" where
  "htmlToMarkdown dollar =
     (let m1 = foldl (\<lambda>md el. md @ replicate (heading_level el) CHR ''#'' @ '' '' @ trim (elem_text el)
                         @ [newline, newline]) [] (dollar ''h1, h2, h3, h4'');
          m2 = foldl (\<lambda>md el. md @ trim (elem_text el) @ [newline, newline]) m1 (dollar ''p'');
          m3 = foldl (\<lambda>md el. md @ fence @ snippet_language el @ [newline] @ trim (elem_text el)
                         @ [newline] @ fence @ [newline, newline]) m2 (dollar ''pre code'')
      in trim m3)"

definition url_topics :: "string \<Rightarrow> string list" where
  "url_topics u = filter (\<lambda>p. p \<noteq> [] \<and> p \<noteq> ''learn'') (split_char CHR ''/'' u)"

definition count_words :: "string \<Rightarrow> nat" where
  "count_words contentStr = length (filter (\<lambda>w. w \<noteq> []) (split_runs isWhiteSpace contentStr))"

text \<open>The value of the \<open>catch\<close> branch.\<close>

definition failure_result :: "string \<Rightarrow> exn \<Rightarrow> ScrapeResult" where
  "failure_result u e =
     \<lparr>success = False, url = u, title = [], content = [], markdown = None,
      codeSnippets = [], wordCount = 0, characterCount = 0, keywords' = [], topics = [],
      error = Some (error_message e)\<rparr>"

text \<open>The \<open>try\<close> branch once the page is fetched and loaded.\<close>

definition extract_page :: "'db env \<Rightarrow> cheerio \<Rightarrow> string \<Rightarrow> ScrapeResult" where
  "extract_page env dollar u =
     (let h1 = trim (text_of (take 1 (dollar ''h1'')));
          title = (if h1 \<noteq> [] then h1 else trim (text_of (dollar ''title'')));
          content = trim (text_of (dollar ''.challenge-instructions, .certification-desc, article, main''))
      in \<lparr>success = True, url = u, title = title, content = content,
          markdown = Some (htmlToMarkdown dollar),
          codeSnippets = collect_snippets [] (dollar ''pre code, .code-editor''),
          wordCount = count_words content, characterCount = length content,
          keywords' = extractKeywords env content, topics = url_topics u, error = None\<rparr>)"

definition scrapePage :: "'db env \<Rightarrow> string \<Rightarrow> ScrapeResult" where
  "scrapePage env u =
     (case axios_get env u of
        Inl e \<Rightarrow> failure_result u e
      | Inr html \<Rightarrow>
          (case cheerio_load env html of
             Inl e \<Rightarrow> failure_result u e
           | Inr dollar \<Rightarrow> extract_page env dollar u))"

subsection \<open>saveContent\<close>

text \<open>\<open>!x\<close> for a string or \<open>null\<close>: \<open>null\<close> and the empty string are falsy.\<close>

definition falsy :: "string option \<Rightarrow> bool" where
  "falsy x = (x = None \<or> x = Some [])"

text \<open>
  The first step: the knowledge source is looked up once and kept in \<open>this.sourceId\<close>
  (\<open>source?.id || null\<close>).
\<close>

definition resolve_source :: "'db env \<Rightarrow> 'db world \<Rightarrow> exn + 'db world" where
  "resolve_source env w =
     (if falsy (sourceId w) then
        (case select_source_id env FCC_BASE (db w) of
           Inl e \<Rightarrow> Inl e
         | Inr source \<Rightarrow> Inr (w\<lparr>sourceId := (if falsy source then None else source)\<rparr>))
      else Inr w)"

text \<open>The digest the change detection compares, computed from \<open>result.content\<close>.\<close>

definition contentHash :: "'db env \<Rightarrow> ScrapeResult \<Rightarrow> string" where
  "contentHash env result = sha256_hex env (content result)"

definition contentData :: "'db env \<Rightarrow> string \<Rightarrow> ScrapeResult \<Rightarrow> content_data" where
  "contentData env sid result =
     \<lparr>source_id = sid, cd_url = url result, cd_title = title result,
      content_type = ''tutorial'', cd_content = content result,
      cd_markdown = markdown result, code_snippets = codeSnippets result,
      word_count = wordCount result, character_count = characterCount result,
      cd_keywords = keywords' result, cd_topics = topics result,
      content_hash = contentHash env result, processed = False\<rparr>"

text \<open>The \<open>catch\<close> of \<open>saveContent\<close>: the error is printed and goes no further.\<close>

definition save_failed :: "exn \<Rightarrow> 'db world \<Rightarrow> 'db world" where
  "save_failed e w = emit (ConsoleError ''Error saving content:'' (Some e)) w"

definition saveContent :: "'db env \<Rightarrow> ScrapeResult \<Rightarrow> string \<Rightarrow> 'db world \<Rightarrow> 'db world" where
  "saveContent env result categoryLabel w =
     (case resolve_source env w of
        Inl e \<Rightarrow> save_failed e w
      | Inr w1 \<Rightarrow>
          (case sourceId w1 of
             None \<Rightarrow> emit (ConsoleError ''No source ID found for FreeCodeCamp'' None) w1
           | Some sid \<Rightarrow>
               if sid = [] then emit (ConsoleError ''No source ID found for FreeCodeCamp'' None) w1
               else
                 (case select_content env (url result) (db w1) of
                    Inl e \<Rightarrow> save_failed e w1
                  | Inr existing \<Rightarrow>
                      (case existing of
                         Some row \<Rightarrow>
                           if row_hash row = Some (contentHash env result) then w1
                           else
                             (case store_write (ContentUpdate (row_id row) (contentData env sid result))
                                     (update_content env (row_id row) (contentData env sid result)) w1 of
                                (Inr answer, w2) \<Rightarrow> w2
                              | (Inl e, w2) \<Rightarrow> save_failed e w2)
                       | None \<Rightarrow>
                           (case store_write (ContentInsert (contentData env sid result))
                                   (insert_content env (contentData env sid result)) w1 of
                              (Inr answer, w2) \<Rightarrow> w2
                            | (Inl e, w2) \<Rightarrow> save_failed e w2)))))"

subsection \<open>updateJob\<close>

definition updateJob :: "'db env \<Rightarrow> string \<Rightarrow> job_update \<Rightarrow> 'db world \<Rightarrow> 'db world" where
  "updateJob env jobId updates w =
     (case store_write (JobUpdate jobId updates) (update_job env jobId updates) w of
        (Inr answer, w1) \<Rightarrow> w1
      | (Inl e, w1) \<Rightarrow> emit (ConsoleError ''Error updating job:'' (Some e)) w1)"

subsection \<open>scrapeCertification\<close>

text \<open>The counters of a run, beside the state it threads through.\<close>

record 'db run =
  world :: "'db world"
  successCount :: nat
  failedCount :: nat

text \<open>
  The optional progress callback is the caller's code: it may throw (\<open>Some\<close> of the
  thrown value), which nothing in \<open>scrapeCertification\<close> catches.
\<close>

type_synonym callback = "nat \<Rightarrow> nat \<Rightarrow> exn option"

text \<open>
  The body of the inner loop for one result: save or count the failure, send the progress
  to the job record, call the callback.
\<close>

definition process_result ::
  "'db env \<Rightarrow> string \<Rightarrow> string \<Rightarrow> callback option \<Rightarrow> nat \<Rightarrow> ScrapeResult \<Rightarrow> 'db run \<Rightarrow> exn option \<times> 'db run" where
  "process_result env certSlug jobId onProgress totalUrls result st =
     (let st1 = (if success result
                 then st\<lparr>world := saveContent env result certSlug (world st),
                         successCount := successCount st + 1\<rparr>
                 else st\<lparr>failedCount := failedCount st + 1\<rparr>);
          processed = successCount st1 + failedCount st1;
          progress = js_mul (js_div (of_nat processed) (of_nat totalUrls)) 100;
          st2 = st1\<lparr>world := updateJob env jobId
                   (JobProgress \<lparr>urls_processed = processed, urls_failed = failedCount st1,
                      progress_percentage = progress, items_scraped = successCount st1\<rparr>)
                   (world st1)\<rparr>
      in case onProgress of
           None \<Rightarrow> (None, st2)
         | Some f \<Rightarrow> (f processed totalUrls, st2\<lparr>world := emit (OnProgress processed totalUrls) (world st2)\<rparr>))"

fun process_results ::
  "'db env \<Rightarrow> string \<Rightarrow> string \<Rightarrow> callback option \<Rightarrow> nat \<Rightarrow> ScrapeResult list \<Rightarrow> 'db run \<Rightarrow> exn option \<times> 'db run" where
  "process_results env certSlug jobId onProgress totalUrls [] st = (None, st)"
| "process_results env certSlug jobId onProgress totalUrls (r # rs) st =
     (case process_result env certSlug jobId onProgress totalUrls r st of
        (Some e, st1) \<Rightarrow> (Some e, st1)
      | (None, st1) \<Rightarrow> process_results env certSlug jobId onProgress totalUrls rs st1)"

text \<open>
  The outer loop \<open>for (let i = 0; i < urls.length; i += concurrency)\<close>. A batch is
  fetched and parsed as a whole (\<open>Promise.all\<close> over \<open>scrapePage\<close>, which touches
  neither the store nor the counters), then its results are handled one by one. With a
  negative \<open>concurrency\<close> the index never reaches the length and the loop does not end:
  each test of the loop condition uses one unit of \<open>fuel\<close>, and the model gives
  \<open>None\<close> when none is left.
\<close>

fun batch_loop ::
  "nat \<Rightarrow> 'db env \<Rightarrow> ScraperConfig \<Rightarrow> string \<Rightarrow> string \<Rightarrow> callback option \<Rightarrow> string list \<Rightarrow> int \<Rightarrow> 'db run
     \<Rightarrow> (exn option \<times> 'db run) option" where
  "batch_loop 0 env config certSlug jobId onProgress urls i st = None"
| "batch_loop (Suc fuel) env config certSlug jobId onProgress urls i st =
     (if i < int (length urls) then
        (let batch = js_slice urls i (i + concurrency config);
             results = map (scrapePage env) batch
         in case process_results env certSlug jobId onProgress (length urls) results st of
              (Some e, st1) \<Rightarrow> Some (Some e, st1)
            | (None, st1) \<Rightarrow>
                batch_loop fuel env config certSlug jobId onProgress urls (i + concurrency config)
                  (if i + concurrency config < int (length urls)
                   then st1\<lparr>world := emit (Delay (delayMs config)) (world st1)\<rparr>
                   else st1))
      else Some (None, st))"

text \<open>
  The summary \<open>scrapeCertification\<close> resolves to: its fields \<open>success\<close>, \<open>failed\<close>
  and \<open>total\<close> (\<open>success\<close> and \<open>total\<close> are names already taken here). The outcome
  is \<open>None\<close> when the fuel runs out, the thrown value when the progress callback throws,
  and the summary otherwise, each but the first with the state the run leaves.
\<close>

record summary =
  succeeded :: nat
  failed :: nat
  total_urls :: nat

definition scrapeCertification ::
  "nat \<Rightarrow> 'db env \<Rightarrow> ScraperConfig \<Rightarrow> FCCCertification \<Rightarrow> string \<Rightarrow> callback option \<Rightarrow> 'db world
     \<Rightarrow> ((exn + summary) \<times> 'db world) option" where
  "scrapeCertification fuel env config cert jobId onProgress w =
     (let w0 = emit (ConsoleLog (''Starting scrape of '' @ cert_title cert @ ''...'')) w;
          (urls, w1) = getCertificationPages env (cert_url cert) w0;
          total = length urls;
          w2 = emit (ConsoleLog (''Found '' @ string_of_nat total @ '' pages in '' @ cert_title cert)) w1;
          w3 = updateJob env jobId (JobStarted total) w2
      in case batch_loop fuel env config (slug cert) jobId onProgress urls 0
                \<lparr>world = w3, successCount = 0, failedCount = 0\<rparr> of
           None \<Rightarrow> None
         | Some (Some e, st) \<Rightarrow> Some (Inl e, world st)
         | Some (None, st) \<Rightarrow>
             Some (Inr \<lparr>succeeded = successCount st, failed = failedCount st, total_urls = total\<rparr>,
                   updateJob env jobId JobCompleted (world st)))"

section \<open>Notions the statements use\<close>

text \<open>A list without its repetitions, each element where it first occurs.\<close>

fun first_seen :: "'a list \<Rightarrow> 'a list" where
  "first_seen [] = []"
| "first_seen (x # xs) = x # filter (\<lambda>y. y \<noteq> x) (first_seen xs)"

text \<open>The URL a matched anchor contributes to the discovery, if it does.\<close>

definition link_target :: "elem \<Rightarrow> string option" where
  "link_target e =
     (case attr e ''href'' of
        None \<Rightarrow> None
      | Some href \<Rightarrow>
          if href \<noteq> [] \<and> js_includes href ''/learn/''
          then Some (if startsWith href ''http'' then href else FCC_BASE @ href)
          else None)"

text \<open>
  The path segments of an absolute URL \<open>scheme://host/path?query#fragment\<close>: the pieces
  between the slashes of what comes before the query string and the fragment, without the
  scheme, the empty piece between the two slashes and the host.
\<close>

definition url_path_segments :: "string \<Rightarrow> string list" where
  "url_path_segments u =
     drop 3 (split_char CHR ''/'' (takeWhile (\<lambda>c. c \<noteq> CHR ''?'' \<and> c \<noteq> CHR ''#'') u))"

text \<open>The writes to \<open>knowledge_content\<close> among the effects of a run, and their number.\<close>

fun is_content_write :: "event \<Rightarrow> bool" where
  "is_content_write (ContentInsert d) = True"
| "is_content_write (ContentUpdate i d) = True"
| "is_content_write ev = False"

definition content_writes :: "event list \<Rightarrow> nat" where
  "content_writes tr = length (filter is_content_write tr)"

text \<open>
  What \<open>saveContent\<close> may add to the effects for a result \<open>r\<close>: console errors, and
  writes of the content, the URL and the fingerprint of \<open>r\<close>.
\<close>

definition write_ok :: "'db env \<Rightarrow> ScrapeResult \<Rightarrow> event \<Rightarrow> bool" where
  "write_ok env r ev =
     (case ev of
        ContentInsert d \<Rightarrow> content_hash d = contentHash env r \<and> cd_content d = content r \<and> cd_url d = url r
      | ContentUpdate i d \<Rightarrow> content_hash d = contentHash env r \<and> cd_content d = content r \<and> cd_url d = url r
      | ConsoleError m x \<Rightarrow> True
      | _ \<Rightarrow> False)"

text \<open>The console errors among the effects of a run.\<close>

fun is_console_error :: "event \<Rightarrow> bool" where
  "is_console_error (ConsoleError m x) = True"
| "is_console_error ev = False"

text \<open>The progress payloads among the effects of a run, in the order they were sent.\<close>

fun progress_of :: "event \<Rightarrow> job_progress option" where
  "progress_of (JobUpdate j (JobProgress p)) = Some p"
| "progress_of ev = None"

definition progress_updates :: "event list \<Rightarrow> job_progress list" where
  "progress_updates tr = List.map_filter progress_of tr"

text \<open>A progress callback that never throws (or none).\<close>

definition quiet :: "callback option \<Rightarrow> bool" where
  "quiet onProgress = (case onProgress of None \<Rightarrow> True | Some f \<Rightarrow> \<forall>k n. f k n = None)"

text \<open>
  The payload after \<open>k\<close> of the results \<open>rs\<close>, of \<open>n\<close> in all; and the state of the
  loops of \<open>scrapeCertification\<close> once \<open>m\<close> results are handled, \<open>p0\<close> being the
  payloads sent before the run.
\<close>

definition progress_after :: "nat \<Rightarrow> ScrapeResult list \<Rightarrow> nat \<Rightarrow> job_progress" where
  "progress_after n rs k =
     \<lparr>urls_processed = k,
      urls_failed = length (filter (\<lambda>r. \<not> success r) (take k rs)),
      progress_percentage = js_mul (js_div (of_nat k) (of_nat n)) 100,
      items_scraped = length (filter success (take k rs))\<rparr>"

definition run_inv :: "nat \<Rightarrow> ScrapeResult list \<Rightarrow> job_progress list \<Rightarrow> nat \<Rightarrow> 'db run \<Rightarrow> bool" where
  "run_inv n rs p0 m st =
     (successCount st = length (filter success (take m rs))
      \<and> failedCount st = length (filter (\<lambda>r. \<not> success r) (take m rs))
      \<and> progress_updates (trace (world st)) = p0 @ map (progress_after n rs) [1..<Suc m])"

text \<open>The state in which \<open>scrapeCertification\<close> enters its loop.\<close>

definition start_world :: "'db env \<Rightarrow> FCCCertification \<Rightarrow> string \<Rightarrow> 'db world \<Rightarrow> 'db world" where
  "start_world env cert jobId w =
     (let w0 = emit (ConsoleLog (''Starting scrape of '' @ cert_title cert @ ''...'')) w;
          (urls, w1) = getCertificationPages env (cert_url cert) w0;
          w2 = emit (ConsoleLog (''Found '' @ string_of_nat (length urls) @ '' pages in '' @ cert_title cert)) w1
      in updateJob env jobId (JobStarted (length urls)) w2)"

text \<open>
  The order in which \<open>Object.entries\<close> lists keys inserted in the order \<open>ks\<close>: the array
  indices by value, then the others as inserted.
\<close>

definition entries_order :: "string list \<Rightarrow> string list" where
  "entries_order ks =
     sort_key digits_value (filter is_array_index ks) @ filter (\<lambda>w. \<not> is_array_index w) ks"

text \<open>
  The keywords as the specification words them: the tokens by descending frequency, those
  of equal frequency in the order of their first occurrence, the first ten. (\<open>sort_key\<close>
  is stable.)
\<close>

definition ranked_keywords :: "string \<Rightarrow> string list" where
  "ranked_keywords contentStr =
     (let ws = keyword_tokens contentStr
      in take 10 (sort_key (\<lambda>w. - int (count_list ws w)) (first_seen ws)))"

text \<open>A frequency table whose values are all numbers: the keys \<open>ks\<close> with the counts \<open>cnt\<close>.\<close>

definition table :: "(string \<Rightarrow> nat) \<Rightarrow> string list \<Rightarrow> (string \<times> jsval) list" where
  "table cnt ks = map (\<lambda>w. (w, JSNumber (cnt w))) ks"

section \<open>A store and a site in memory\<close>

text \<open>
  A record store kept in memory, with the reads and writes the scraper sends: \<open>single\<close>
  gives a row when exactly one matches, an insert appends a row under a fresh id, an update
  replaces the rows of an id, an update of the job record is appended to the log of the
  job. No operation throws, and every write resolves to a response without error. The
  digest is a checksum printed as 64 hexadecimal digits, and the engine sorts by insertion
  (\<open>stable_sort\<close>) whatever the comparator. The theorems below hold for every transport, parser, digest and
  store; this one runs them on concrete inputs.
\<close>

record mem_db =
  sources :: "(string \<times> string) list"
  contents :: "(string \<times> content_data) list"
  job_log :: "(string \<times> job_update) list"

definition single :: "'a list \<Rightarrow> 'a option" where
  "single rows = (case rows of [r] \<Rightarrow> Some r | _ \<Rightarrow> None)"

definition hex_digit :: "nat \<Rightarrow> char" where
  "hex_digit n = ''0123456789abcdef'' ! (n mod 16)"

definition checksum_hex :: "string \<Rightarrow> string" where
  "checksum_hex s =
     (let n = foldl (\<lambda>a c. (31 * a + of_char c) mod 256) 7 s
      in replicate 62 CHR ''0'' @ [hex_digit (n div 16), hex_digit n])"

definition mem_env :: "(string \<Rightarrow> exn + string) \<Rightarrow> (string \<Rightarrow> exn + cheerio) \<Rightarrow> mem_db env" where
  "mem_env get load =
     \<lparr>axios_get = get, cheerio_load = load, sha256_hex = checksum_hex,
      select_source_id = (\<lambda>u d. Inr (map_option snd (single (filter (\<lambda>r. fst r = u) (sources d))))),
      select_content = (\<lambda>u d. Inr (map_option (\<lambda>r. \<lparr>row_id = fst r, row_hash = Some (content_hash (snd r))\<rparr>)
                                   (single (filter (\<lambda>r. cd_url (snd r) = u) (contents d))))),
      update_content = (\<lambda>i row d. (Inr (Response None),
                          d\<lparr>contents := map (\<lambda>r. if fst r = i then (i, row) else r) (contents d)\<rparr>)),
      insert_content = (\<lambda>row d. (Inr (Response None),
                          d\<lparr>contents := contents d @ [(string_of_nat (length (contents d)), row)]\<rparr>)),
      update_job = (\<lambda>j u d. (Inr (Response None), d\<lparr>job_log := job_log d @ [(j, u)]\<rparr>)),
      engine_sort = stable_sort\<rparr>"

text \<open>
  What the job record of \<open>jobId\<close> holds as \<open>urls_processed\<close> in this store: the value of
  the last progress update in its log, if any.
\<close>

fun apply_update :: "job_update \<Rightarrow> nat option \<Rightarrow> nat option" where
  "apply_update (JobProgress p) v = Some (urls_processed p)"
| "apply_update u v = v"

definition stored_processed :: "string \<Rightarrow> mem_db \<Rightarrow> nat option" where
  "stored_processed jobId d =
     foldl (\<lambda>v ju. if fst ju = jobId then apply_update (snd ju) v else v) None (job_log d)"

text \<open>
  A site of three pages: a listing with three links (one of them twice), a lesson with two
  code blocks of 14 and 10 characters, and a lesson that answers 404.
\<close>

definition anchor :: "string \<Rightarrow> elem" where
  "anchor href = \<lparr>tagName = ''a'', attribs = [(''href'', href)], elem_text = ''lesson''\<rparr>"

definition listing_page :: cheerio where
  "listing_page sel =
     (if sel = learn_links then [anchor ''/learn/a/one'', anchor ''/learn/a/one'', anchor ''/learn/a/two'']
      else [])"

definition lesson_page :: cheerio where
  "lesson_page sel =
     (if sel = ''h1'' \<or> sel = ''h1, h2, h3, h4''
      then [\<lparr>tagName = ''h1'', attribs = [], elem_text = ''Lesson One''\<rparr>]
      else if sel = ''.challenge-instructions, .certification-desc, article, main''
      then [\<lparr>tagName = ''main'', attribs = [], elem_text = '' Learn flexbox with flexbox examples ''\<rparr>]
      else if sel = ''pre code, .code-editor'' \<or> sel = ''pre code''
      then [\<lparr>tagName = ''code'', attribs = [(''class'', ''language-css'')], elem_text = ''display: flex;''\<rparr>,
            \<lparr>tagName = ''code'', attribs = [], elem_text = ''0123456789''\<rparr>]
      else [])"

definition root_url :: string where
  "root_url = ''https://www.freecodecamp.org/learn/a/''"

definition lesson_url :: string where
  "lesson_url = ''https://www.freecodecamp.org/learn/a/one''"

definition missing_url :: string where
  "missing_url = ''https://www.freecodecamp.org/learn/a/two''"

definition site_get :: "string \<Rightarrow> exn + string" where
  "site_get u =
     (if u = root_url then Inr ''listing''
      else if u = lesson_url then Inr ''lesson''
      else Inl (Error ''Request failed with status code 404''))"

definition site_load :: "string \<Rightarrow> exn + cheerio" where
  "site_load html =
     (if html = ''listing'' then Inr listing_page
      else if html = ''lesson'' then Inr lesson_page
      else Inl (Error ''not markup''))"

definition site_env :: "mem_db env" where
  "site_env = mem_env site_get site_load"

text \<open>A store without the FreeCodeCamp knowledge source, and one that has it.\<close>

definition empty_store :: "mem_db world" where
  "empty_store = \<lparr>sourceId = None, db = \<lparr>sources = [], contents = [], job_log = []\<rparr>, trace = []\<rparr>"

definition seeded_store :: "mem_db world" where
  "seeded_store = \<lparr>sourceId = None,
     db = \<lparr>sources = [(FCC_BASE, ''src-1'')], contents = [], job_log = []\<rparr>, trace = []\<rparr>"

definition fcc_cert :: FCCCertification where
  "fcc_cert = \<lparr>cert_title = ''A'', slug = ''a'', cert_url = root_url, description = ''d'',
     category = ''frontend''\<rparr>"

text \<open>The result of scraping the lesson.\<close>

definition lesson_result :: ScrapeResult where
  "lesson_result = scrapePage site_env lesson_url"

text \<open>
  The same site over a store whose inserts throw, over one that refuses them in the
  response it resolves to, and over one whose updates of the job record throw. None of the
  three keeps what it is sent.
\<close>

definition failing_insert_env :: "mem_db env" where
  "failing_insert_env = site_env\<lparr>insert_content := (\<lambda>row d. (Inl (Error ''insert failed''), d))\<rparr>"

definition refusing_insert_env :: "mem_db env" where
  "refusing_insert_env =
     site_env\<lparr>insert_content := (\<lambda>row d. (Inr (Response (Some ''permission denied for table knowledge_content'')), d))\<rparr>"

definition failing_job_env :: "mem_db env" where
  "failing_job_env = site_env\<lparr>update_job := (\<lambda>j u d. (Inl (Error ''fetch failed''), d))\<rparr>"

section \<open>Basic facts\<close>

lemmas site_defs = site_env_def mem_env_def site_get_def site_load_def root_url_def lesson_url_def
  missing_url_def listing_page_def lesson_page_def anchor_def

lemma set_first_seen: "set (first_seen xs) = set xs"
  by (induction xs) auto

lemma distinct_first_seen: "distinct (first_seen xs)"
  by (induction xs) (auto simp: set_first_seen)

lemma scrapePage_fetch_failed:
  "axios_get env u = Inl e \<Longrightarrow> scrapePage env u = failure_result u e"
  by (simp add: scrapePage_def)

lemma scrapePage_load_failed:
  "axios_get env u = Inr html \<Longrightarrow> cheerio_load env html = Inl e \<Longrightarrow> scrapePage env u = failure_result u e"
  by (simp add: scrapePage_def)

lemma scrapePage_loaded:
  "axios_get env u = Inr html \<Longrightarrow> cheerio_load env html = Inr dollar \<Longrightarrow>
   scrapePage env u = extract_page env dollar u"
  by (simp add: scrapePage_def)

lemma extract_page_fields:
  "success (extract_page env dollar u)"
  "url (extract_page env dollar u) = u"
  "topics (extract_page env dollar u) = url_topics u"
  "codeSnippets (extract_page env dollar u) = collect_snippets [] (dollar ''pre code, .code-editor'')"
  "error (extract_page env dollar u) = None"
  by (simp_all add: extract_page_def Let_def)

lemma failure_result_fields:
  "\<not> success (failure_result u e)"
  "url (failure_result u e) = u"
  "error (failure_result u e) = Some (error_message e)"
  by (simp_all add: failure_result_def)

section \<open>URL discovery\<close>

lemma push_links_first_seen:
  "push_links urls es
     = urls @ filter (\<lambda>y. y \<notin> set urls) (first_seen (List.map_filter link_target es))"
proof (induction es arbitrary: urls)
  case Nil
  then show ?case by simp
next
  case (Cons e es)
  show ?case
  proof (cases "link_target e")
    case None
    then have "push_links urls (e # es) = push_links urls es"
      by (auto simp: link_target_def split: option.splits if_splits)
    with None Cons show ?thesis by simp
  next
    case (Some t)
    show ?thesis
    proof (cases "t \<in> set urls")
      case True
      with Some have "push_links urls (e # es) = push_links urls es"
        by (auto simp: link_target_def Let_def split: option.splits if_splits)
      moreover have "filter (\<lambda>y. y \<notin> set urls) (filter (\<lambda>y. y \<noteq> t) ys)
          = filter (\<lambda>y. y \<notin> set urls) ys" for ys
        using True by (induction ys) auto
      ultimately show ?thesis using Some True Cons by simp
    next
      case False
      with Some have "push_links urls (e # es) = push_links (urls @ [t]) es"
        by (auto simp: link_target_def Let_def split: option.splits if_splits)
      moreover have "filter (\<lambda>y. y \<notin> set (urls @ [t])) ys
          = filter (\<lambda>y. y \<notin> set urls) (filter (\<lambda>y. y \<noteq> t) ys)" for ys
        by (induction ys) auto
      ultimately show ?thesis using Some False Cons by simp
    qed
  qed
qed

lemma push_links_root:
  "push_links [certUrl] es = first_seen (certUrl # List.map_filter link_target es)"
  by (simp add: push_links_first_seen)

text \<open>
  Claim C3. \<open>getCertificationPages\<close> returns at most 50 URLs, the root URL first and no URL
  twice: when the listing is fetched and parsed, the root URL followed by the targets of
  the matched links, each where it is first seen, cut after 50; when the fetch or the
  parse throws, the root URL alone. The function returns a list in every case: nothing it
  calls can throw past its \<open>catch\<close>.
\<close>

theorem getCertificationPages_discovery:
  "(let urls = fst (getCertificationPages env certUrl w)
    in urls \<noteq> [] \<and> hd urls = certUrl \<and> length urls \<le> 50 \<and> distinct urls)
   \<and> (\<forall>data dollar. axios_get env certUrl = Inr data \<and> cheerio_load env data = Inr dollar \<longrightarrow>
         fst (getCertificationPages env certUrl w)
           = take 50 (first_seen (certUrl # List.map_filter link_target (dollar learn_links))))
   \<and> ((\<exists>e. axios_get env certUrl = Inl e)
        \<or> (\<exists>data e. axios_get env certUrl = Inr data \<and> cheerio_load env data = Inl e) \<longrightarrow>
         fst (getCertificationPages env certUrl w) = [certUrl])"
proof -
  have shape: "xs \<noteq> [] \<and> hd xs = certUrl \<and> length xs \<le> 50 \<and> distinct xs"
    if "xs = take 50 (first_seen (certUrl # ts))" for xs ts
    using that distinct_first_seen [of "certUrl # ts"]
    by (auto dest: in_set_takeD intro: distinct_take)
  let ?urls = "fst (getCertificationPages env certUrl w)"
  show ?thesis
  proof (cases "axios_get env certUrl")
    case (Inl e)
    then have "?urls = [certUrl]" by (simp add: getCertificationPages_def)
    with Inl show ?thesis by simp
  next
    case (Inr data)
    show ?thesis
    proof (cases "cheerio_load env data")
      case (Inl e)
      with Inr have "?urls = [certUrl]" by (simp add: getCertificationPages_def)
      with Inr Inl show ?thesis by simp
    next
      case (Inr dollar)
      with \<open>axios_get env certUrl = Inr data\<close>
      have r: "?urls = take 50 (first_seen (certUrl # List.map_filter link_target (dollar learn_links)))"
        by (simp add: getCertificationPages_def push_links_root del: first_seen.simps)
      from shape [OF r] r Inr \<open>axios_get env certUrl = Inr data\<close> show ?thesis
        by (simp add: Let_def del: first_seen.simps)
    qed
  qed
qed

theorem getCertificationPages_discovery_witness:
  "axios_get site_env root_url = Inr ''listing'' \<and> cheerio_load site_env ''listing'' = Inr listing_page
   \<and> fst (getCertificationPages site_env root_url empty_store) = [root_url, lesson_url, missing_url]
   \<and> axios_get site_env missing_url = Inl (Error ''Request failed with status code 404'')
   \<and> fst (getCertificationPages site_env missing_url empty_store) = [missing_url]"
  using getCertificationPages_discovery [of site_env root_url empty_store]
    getCertificationPages_discovery [of site_env missing_url empty_store]
  by (simp add: site_defs attr_def startsWith_def FCC_BASE_def learn_links_def link_target_def)

section \<open>Page extraction\<close>

text \<open>
  Claim C7. \<open>scrapePage\<close> returns a result for every URL (its whole body stands in one
  \<open>try\<close>, and the model has no other outcome). When the fetch throws (a transport failure
  or a response outside 2xx) or the parse throws, the result has \<open>success\<close> false, the URL
  it was given, the message of the thrown error (\<open>Unknown error\<close> for a value that is no
  \<open>Error\<close>), zero counts and empty lists; and a result without success is one of these.
\<close>

theorem scrapePage_failure:
  "(axios_get env u = Inl e \<longrightarrow>
      scrapePage env u = \<lparr>success = False, url = u, title = [], content = [], markdown = None,
        codeSnippets = [], wordCount = 0, characterCount = 0, keywords' = [], topics = [],
        error = Some (error_message e)\<rparr>)
   \<and> (axios_get env u = Inr html \<and> cheerio_load env html = Inl e \<longrightarrow>
      scrapePage env u = \<lparr>success = False, url = u, title = [], content = [], markdown = None,
        codeSnippets = [], wordCount = 0, characterCount = 0, keywords' = [], topics = [],
        error = Some (error_message e)\<rparr>)
   \<and> (\<not> success (scrapePage env u) \<longrightarrow>
        ((\<exists>x. axios_get env u = Inl x) \<or> (\<exists>h x. axios_get env u = Inr h \<and> cheerio_load env h = Inl x))
        \<and> url (scrapePage env u) = u \<and> error (scrapePage env u) \<noteq> None
        \<and> wordCount (scrapePage env u) = 0 \<and> characterCount (scrapePage env u) = 0
        \<and> codeSnippets (scrapePage env u) = [] \<and> keywords' (scrapePage env u) = []
        \<and> topics (scrapePage env u) = [])
   \<and> error_message (Error m) = m \<and> error_message NonError = ''Unknown error''"
  by (auto simp: scrapePage_def failure_result_def extract_page_def Let_def split: sum.splits)

theorem scrapePage_failure_witness:
  "axios_get site_env missing_url = Inl (Error ''Request failed with status code 404'')
   \<and> scrapePage site_env missing_url
       = \<lparr>success = False, url = missing_url, title = [], content = [],
          markdown = None, codeSnippets = [], wordCount = 0, characterCount = 0, keywords' = [],
          topics = [], error = Some ''Request failed with status code 404''\<rparr>
   \<and> axios_get (mem_env (\<lambda>u. Inr ''binary'') site_load) lesson_url = Inr ''binary''
   \<and> cheerio_load (mem_env (\<lambda>u. Inr ''binary'') site_load) ''binary'' = Inl (Error ''not markup'')
   \<and> error (scrapePage (mem_env (\<lambda>u. Inr ''binary'') site_load) lesson_url) = Some ''not markup''
   \<and> \<not> success (scrapePage (mem_env (\<lambda>u. Inl NonError) site_load) lesson_url)
   \<and> error (scrapePage (mem_env (\<lambda>u. Inl NonError) site_load) lesson_url) = Some ''Unknown error''"
  using scrapePage_failure [of site_env missing_url "Error ''Request failed with status code 404''" "[]" "[]"]
    scrapePage_failure [of "mem_env (\<lambda>u. Inr ''binary'') site_load" lesson_url "Error ''not markup''"
      "''binary''" "[]"]
    scrapePage_failure [of "mem_env (\<lambda>u. Inl NonError) site_load" lesson_url NonError "[]" "[]"]
  by (simp add: site_defs scrapePage_def failure_result_def)

subsection \<open>Code snippets\<close>

lemma collect_snippets_acc:
  "collect_snippets acc es =
     acc @ map (\<lambda>e. \<lparr>language = snippet_language e, code = trim (elem_text e)\<rparr>)
             (filter (\<lambda>e. 11 \<le> length (trim (elem_text e))) es)"
  by (induction es arbitrary: acc) (auto simp: Let_def)

lemma match_language_none: "\<not> js_includes cls ''language-'' \<Longrightarrow> match_language cls = None"
  by (induction cls) auto

lemma match_language_marker:
  "name \<noteq> [] \<Longrightarrow> list_all isWordChar name \<Longrightarrow> rest = [] \<or> \<not> isWordChar (hd rest) \<Longrightarrow>
   match_language (''language-'' @ name @ rest) = Some name"
  by (cases rest)
    (auto simp: startsWith_def takeWhile_append list_all_iff takeWhile_eq_all_conv [THEN iffD2])

text \<open>The marker does not overlap itself: \<open>l\<close> is its first character only.\<close>

lemma marker_no_overlap:
  assumes "startsWith (pre @ ''language-'' @ sfx) ''language-''" and "pre \<noteq> []"
  shows "js_includes pre ''language-''"
proof (cases "9 \<le> length pre")
  case True
  with assms(1) have "startsWith pre ''language-''" by (simp add: startsWith_def)
  then show ?thesis using assms(2) by (cases pre) auto
next
  case False
  define k where "k = length pre"
  have k: "0 < k" "k < 9" using False assms(2) by (auto simp: k_def)
  define X where "X = pre @ ''language-'' @ sfx"
  from assms(1) have tk: "take (length ''language-'') X = ''language-''"
    unfolding X_def [symmetric] startsWith_def .
  have "take (length ''language-'') X ! k = X ! k"
    using k by (intro nth_take) simp
  with tk have "X ! k = ''language-'' ! k" by simp
  moreover have "X ! k = CHR ''l''" by (simp add: X_def k_def nth_append)
  ultimately have "''language-'' ! k = CHR ''l''" by simp
  moreover have "''language-'' ! j \<noteq> CHR ''l''" if "0 < j" "j < 9" for j
  proof -
    from that have "j \<in> {1, 2, 3, 4, 5, 6, 7, 8}" by auto
    then show ?thesis by auto
  qed
  ultimately show ?thesis using k by blast
qed

lemma match_language_after:
  assumes "\<not> js_includes pre ''language-''" "name \<noteq> []" "list_all isWordChar name"
    "rest = [] \<or> \<not> isWordChar (hd rest)"
  shows "match_language (pre @ ''language-'' @ name @ rest) = Some name"
  using assms(1)
proof (induction pre)
  case Nil
  show ?case using match_language_marker [OF assms(2,3,4)] by simp
next
  case (Cons p ps)
  from Cons.prems have ps: "\<not> js_includes ps ''language-''" by auto
  have "\<not> startsWith ((p # ps) @ ''language-'' @ name @ rest) ''language-''"
    using marker_no_overlap [of "p # ps" "name @ rest"] Cons.prems by blast
  then have "match_language ((p # ps) @ ''language-'' @ name @ rest)
      = match_language (ps @ ''language-'' @ name @ rest)"
    by simp
  with Cons.IH [OF ps] show ?case by simp
qed

text \<open>
  Claim C5, as the code has it. Of a fetched page \<open>scrapePage\<close> keeps, in document order,
  one snippet for each element of \<open>pre code, .code-editor\<close> whose trimmed text has more
  than 10 characters (11 or more), and drops the others: a snippet of exactly 10
  characters is dropped. The language is \<open>javascript\<close> when the element has no class
  or its class does not contain \<open>language-\<close>, and it is the name after the first
  \<open>language-\<close> marker (the word characters up to the next other character).
\<close>

theorem scrapePage_codeSnippets:
  "(axios_get env u = Inr html \<and> cheerio_load env html = Inr dollar \<longrightarrow>
      codeSnippets (scrapePage env u)
        = map (\<lambda>e. \<lparr>language = snippet_language e, code = trim (elem_text e)\<rparr>)
            (filter (\<lambda>e. 11 \<le> length (trim (elem_text e))) (dollar ''pre code, .code-editor'')))
   \<and> (attr e ''class'' = None \<longrightarrow> snippet_language e = ''javascript'')
   \<and> (attr e ''class'' = Some cls \<and> \<not> js_includes cls ''language-'' \<longrightarrow>
        snippet_language e = ''javascript'')
   \<and> (attr e ''class'' = Some (pre @ ''language-'' @ name @ rest)
        \<and> \<not> js_includes pre ''language-'' \<and> name \<noteq> [] \<and> list_all isWordChar name
        \<and> (rest = [] \<or> \<not> isWordChar (hd rest)) \<longrightarrow>
        snippet_language e = name)"
proof -
  have a: "codeSnippets (scrapePage env u)
        = map (\<lambda>e. \<lparr>language = snippet_language e, code = trim (elem_text e)\<rparr>)
            (filter (\<lambda>e. 11 \<le> length (trim (elem_text e))) (dollar ''pre code, .code-editor''))"
    if "axios_get env u = Inr html" "cheerio_load env html = Inr dollar"
    using that by (simp add: scrapePage_loaded extract_page_fields collect_snippets_acc)
  have b: "snippet_language e = ''javascript''" if "attr e ''class'' = None"
    using that by (simp add: snippet_language_def)
  have c: "snippet_language e = ''javascript''"
    if "attr e ''class'' = Some cls" "\<not> js_includes cls ''language-''"
    using that by (simp add: snippet_language_def match_language_none)
  have d: "snippet_language e = name"
    if "attr e ''class'' = Some (pre @ ''language-'' @ name @ rest)"
      "\<not> js_includes pre ''language-''" "name \<noteq> []" "list_all isWordChar name"
      "rest = [] \<or> \<not> isWordChar (hd rest)"
    using that match_language_after [of pre name rest] by (simp add: snippet_language_def)
  from a b c d show ?thesis by blast
qed

theorem scrapePage_codeSnippets_witness:
  "axios_get site_env lesson_url = Inr ''lesson'' \<and> cheerio_load site_env ''lesson'' = Inr lesson_page
   \<and> codeSnippets (scrapePage site_env lesson_url) = [\<lparr>language = ''css'', code = ''display: flex;''\<rparr>]
   \<and> snippet_language \<lparr>tagName = ''code'', attribs = [], elem_text = ''0123456789''\<rparr> = ''javascript''
   \<and> snippet_language \<lparr>tagName = ''code'', attribs = [(''class'', ''hljs language-css dark'')],
        elem_text = []\<rparr> = ''css''"
  using scrapePage_codeSnippets [of site_env lesson_url "''lesson''" lesson_page
      "\<lparr>tagName = ''code'', attribs = [], elem_text = ''0123456789''\<rparr>" "[]" "[]" "[]" "[]"]
    scrapePage_codeSnippets [of site_env lesson_url "''lesson''" lesson_page
      "\<lparr>tagName = ''code'', attribs = [(''class'', ''hljs language-css dark'')], elem_text = []\<rparr>"
      "[]" "''hljs ''" "''css''" "'' dark''"]
  by (simp add: site_defs attr_def trim_def isWhiteSpace_def isWordChar_def startsWith_def
      snippet_language_def)

text \<open>
  The claim as the specification states it (every snippet of 10 characters or more is
  kept) fails on the lesson page: its code blocks have 14 and 10 characters, and only the
  first is kept.
\<close>

theorem snippet_of_ten_characters_dropped:
  "map (\<lambda>e. length (trim (elem_text e))) (lesson_page ''pre code, .code-editor'') = [14, 10]
   \<and> map code (codeSnippets (scrapePage site_env lesson_url)) = [''display: flex;'']"
  by (simp add: scrapePage_def extract_page_def site_defs trim_def isWhiteSpace_def Let_def)

subsection \<open>Topics\<close>

lemma split_char_append:
  "sep \<notin> set a \<Longrightarrow> split_char sep (a @ sep # b) = a # split_char sep b"
  by (induction a) auto

text \<open>
  Claim C9, as the code has it. The topics of a scraped page are the pieces of the whole
  URL string between its slashes, without the empty pieces and without \<open>learn\<close>. For
  an absolute URL \<open>scheme://host/rest\<close> that is the scheme with its colon, then the host,
  then the pieces of the rest, in which the query string and the fragment are not told
  from the path. Where the URL has neither, these are its path segments other than
  \<open>learn\<close>.
\<close>

theorem scrapePage_topics:
  "(success (scrapePage env u) \<longrightarrow>
      topics (scrapePage env u) = filter (\<lambda>p. p \<noteq> [] \<and> p \<noteq> ''learn'') (split_char CHR ''/'' u))
   \<and> (CHR ''/'' \<notin> set scheme \<and> CHR ''/'' \<notin> set host \<and> host \<noteq> [] \<and> host \<noteq> ''learn''
        \<and> success (scrapePage env (scheme @ ''://'' @ host @ ''/'' @ rest)) \<longrightarrow>
      topics (scrapePage env (scheme @ ''://'' @ host @ ''/'' @ rest))
        = (scheme @ '':'') # host # filter (\<lambda>p. p \<noteq> [] \<and> p \<noteq> ''learn'') (split_char CHR ''/'' rest))
   \<and> (CHR ''/'' \<notin> set scheme \<and> CHR ''/'' \<notin> set host \<and> host \<noteq> [] \<and> host \<noteq> ''learn''
        \<and> CHR ''?'' \<notin> set (scheme @ host @ rest) \<and> CHR ''#'' \<notin> set (scheme @ host @ rest)
        \<and> success (scrapePage env (scheme @ ''://'' @ host @ ''/'' @ rest)) \<longrightarrow>
      topics (scrapePage env (scheme @ ''://'' @ host @ ''/'' @ rest))
        = (scheme @ '':'') # host
          # filter (\<lambda>p. p \<noteq> [] \<and> p \<noteq> ''learn'')
              (url_path_segments (scheme @ ''://'' @ host @ ''/'' @ rest)))"
proof -
  let ?u = "scheme @ ''://'' @ host @ ''/'' @ rest"
  have t: "topics (scrapePage env v) = filter (\<lambda>p. p \<noteq> [] \<and> p \<noteq> ''learn'') (split_char CHR ''/'' v)"
    if "success (scrapePage env v)" for v
    using that
    by (auto simp: scrapePage_def extract_page_fields failure_result_fields url_topics_def
        split: sum.splits)
  have s: "split_char CHR ''/'' ?u = (scheme @ '':'') # [] # host # split_char CHR ''/'' rest"
    if "CHR ''/'' \<notin> set scheme" "CHR ''/'' \<notin> set host"
  proof -
    have "split_char CHR ''/'' ?u
        = split_char CHR ''/'' ((scheme @ '':'') @ CHR ''/'' # (CHR ''/'' # host @ CHR ''/'' # rest))"
      by simp
    also have "\<dots> = (scheme @ '':'') # split_char CHR ''/'' (CHR ''/'' # host @ CHR ''/'' # rest)"
      using that(1) by (intro split_char_append) simp
    also have "split_char CHR ''/'' (CHR ''/'' # host @ CHR ''/'' # rest)
        = [] # split_char CHR ''/'' (host @ CHR ''/'' # rest)"
      by simp
    also have "split_char CHR ''/'' (host @ CHR ''/'' # rest) = host # split_char CHR ''/'' rest"
      using that(2) by (rule split_char_append)
    finally show ?thesis .
  qed
  have n: "scheme @ '':'' \<noteq> ''learn''"
  proof
    assume "scheme @ '':'' = ''learn''"
    then have "last (scheme @ '':'') = last ''learn''" by (rule arg_cong)
    then show False by simp
  qed
  have whole: "topics (scrapePage env ?u)
        = (scheme @ '':'') # host # filter (\<lambda>p. p \<noteq> [] \<and> p \<noteq> ''learn'') (split_char CHR ''/'' rest)"
    if "CHR ''/'' \<notin> set scheme" "CHR ''/'' \<notin> set host" "host \<noteq> []" "host \<noteq> ''learn''"
      "success (scrapePage env ?u)"
    using t [OF that(5)] s [OF that(1,2)] n that(3,4) by simp
  have path: "url_path_segments ?u = split_char CHR ''/'' rest"
    if "CHR ''/'' \<notin> set scheme" "CHR ''/'' \<notin> set host"
      "CHR ''?'' \<notin> set (scheme @ host @ rest)" "CHR ''#'' \<notin> set (scheme @ host @ rest)"
  proof -
    have "\<forall>c\<in>set ?u. c \<noteq> CHR ''?'' \<and> c \<noteq> CHR ''#''"
      using that(3,4) by auto
    then have "takeWhile (\<lambda>c. c \<noteq> CHR ''?'' \<and> c \<noteq> CHR ''#'') ?u = ?u"
      by (simp only: takeWhile_eq_all_conv)
    then have "url_path_segments ?u = drop 3 (split_char CHR ''/'' ?u)"
      by (simp only: url_path_segments_def)
    also have "\<dots> = split_char CHR ''/'' rest"
      by (simp only: s [OF that(1,2)]) simp
    finally show ?thesis .
  qed
  from t whole path show ?thesis by (simp del: append_assoc append.simps set_append)
qed

theorem scrapePage_topics_witness:
  "success (scrapePage site_env lesson_url)
   \<and> CHR ''/'' \<notin> set ''https'' \<and> CHR ''/'' \<notin> set ''www.freecodecamp.org''
   \<and> CHR ''?'' \<notin> set (''https'' @ ''www.freecodecamp.org'' @ ''learn/a/one'')
   \<and> CHR ''#'' \<notin> set (''https'' @ ''www.freecodecamp.org'' @ ''learn/a/one'')
   \<and> lesson_url = ''https'' @ ''://'' @ ''www.freecodecamp.org'' @ ''/'' @ ''learn/a/one''
   \<and> url_path_segments lesson_url = [''learn'', ''a'', ''one'']
   \<and> topics (scrapePage site_env lesson_url) = [''https:'', ''www.freecodecamp.org'', ''a'', ''one'']"
  using scrapePage_topics [of site_env lesson_url "''https''" "''www.freecodecamp.org''" "''learn/a/one''"]
  by (simp add: site_defs scrapePage_def extract_page_fields url_path_segments_def)

text \<open>
  The claim as the specification states it (the topics are the path segments without
  \<open>learn\<close>) fails on the lesson URL, whose topics begin with the scheme and the host;
  and on a URL with a query string and a fragment the topics are pieces of these too.
\<close>

theorem topics_hold_scheme_and_host:
  "topics (scrapePage site_env lesson_url) = [''https:'', ''www.freecodecamp.org'', ''a'', ''one'']
   \<and> filter (\<lambda>p. p \<noteq> [] \<and> p \<noteq> ''learn'') (url_path_segments lesson_url) = [''a'', ''one'']
   \<and> topics (scrapePage (site_env\<lparr>axios_get := (\<lambda>u. Inr ''lesson'')\<rparr>)
        ''https://www.freecodecamp.org/learn/a/one?tab=x/y#top/end'')
       = [''https:'', ''www.freecodecamp.org'', ''a'', ''one?tab=x'', ''y#top'', ''end'']
   \<and> filter (\<lambda>p. p \<noteq> [] \<and> p \<noteq> ''learn'')
        (url_path_segments ''https://www.freecodecamp.org/learn/a/one?tab=x/y#top/end'') = [''a'', ''one'']"
  by (simp add: site_defs scrapePage_def extract_page_fields url_path_segments_def url_topics_def)

section \<open>Change detection and writing\<close>

lemma content_writes_append [simp]:
  "content_writes (xs @ ys) = content_writes xs + content_writes ys"
  by (simp add: content_writes_def)

lemma content_writes_simps [simp]:
  "content_writes [] = 0"
  "content_writes (ContentInsert d # tr) = Suc (content_writes tr)"
  "content_writes (ContentUpdate i d # tr) = Suc (content_writes tr)"
  "content_writes (ConsoleError m x # tr) = content_writes tr"
  by (simp_all add: content_writes_def)

lemma resolve_source_db: "resolve_source env w = Inr w1 \<Longrightarrow> db w1 = db w \<and> trace w1 = trace w"
  by (auto simp: resolve_source_def split: if_splits sum.splits)

lemma resolve_source_again:
  "sourceId w = Some sid \<Longrightarrow> sid \<noteq> [] \<Longrightarrow> resolve_source env w = Inr w"
  by (simp add: resolve_source_def falsy_def)

text \<open>The branches of \<open>saveContent\<close>.\<close>

lemma saveContent_unresolved:
  "resolve_source env w = Inr w1 \<Longrightarrow> falsy (sourceId w1) \<Longrightarrow>
   saveContent env r c w = emit (ConsoleError ''No source ID found for FreeCodeCamp'' None) w1"
  by (auto simp: saveContent_def falsy_def split: option.splits)

lemma saveContent_unchanged:
  "resolve_source env w = Inr w1 \<Longrightarrow> sourceId w1 = Some sid \<Longrightarrow> sid \<noteq> [] \<Longrightarrow>
   select_content env (url r) (db w) = Inr (Some row) \<Longrightarrow> row_hash row = Some (contentHash env r) \<Longrightarrow>
   saveContent env r c w = w1"
  by (frule resolve_source_db) (simp add: saveContent_def)

lemma saveContent_update:
  "resolve_source env w = Inr w1 \<Longrightarrow> sourceId w1 = Some sid \<Longrightarrow> sid \<noteq> [] \<Longrightarrow>
   select_content env (url r) (db w) = Inr (Some row) \<Longrightarrow> row_hash row \<noteq> Some (contentHash env r) \<Longrightarrow>
   update_content env (row_id row) (contentData env sid r) (db w) = (answer, d) \<Longrightarrow>
   saveContent env r c w =
     (case answer of
        Inr response \<Rightarrow> emit (ContentUpdate (row_id row) (contentData env sid r)) (w1\<lparr>db := d\<rparr>)
      | Inl e \<Rightarrow> save_failed e (emit (ContentUpdate (row_id row) (contentData env sid r)) (w1\<lparr>db := d\<rparr>)))"
  by (frule resolve_source_db) (simp add: saveContent_def store_write_def split: sum.splits)

lemma saveContent_insert:
  "resolve_source env w = Inr w1 \<Longrightarrow> sourceId w1 = Some sid \<Longrightarrow> sid \<noteq> [] \<Longrightarrow>
   select_content env (url r) (db w) = Inr None \<Longrightarrow>
   insert_content env (contentData env sid r) (db w) = (answer, d) \<Longrightarrow>
   saveContent env r c w =
     (case answer of
        Inr response \<Rightarrow> emit (ContentInsert (contentData env sid r)) (w1\<lparr>db := d\<rparr>)
      | Inl e \<Rightarrow> save_failed e (emit (ContentInsert (contentData env sid r)) (w1\<lparr>db := d\<rparr>)))"
  by (frule resolve_source_db) (simp add: saveContent_def store_write_def split: sum.splits)

text \<open>What \<open>saveContent\<close> adds to the effects, in every case.\<close>

lemma saveContent_failed_early:
  "resolve_source env w = Inl e \<Longrightarrow> saveContent env r c w = save_failed e w"
  by (simp add: saveContent_def)

lemma saveContent_select_failed:
  "resolve_source env w = Inr w1 \<Longrightarrow> sourceId w1 = Some sid \<Longrightarrow> sid \<noteq> [] \<Longrightarrow>
   select_content env (url r) (db w) = Inl e \<Longrightarrow> saveContent env r c w = save_failed e w1"
  by (frule resolve_source_db) (simp add: saveContent_def)

lemma write_ok_simps [simp]:
  "write_ok env r (ConsoleError m x)"
  "write_ok env r (ContentInsert (contentData env sid r))"
  "write_ok env r (ContentUpdate i (contentData env sid r))"
  by (simp_all add: write_ok_def contentData_def)

lemma saveContent_trace:
  "\<exists>evs. trace (saveContent env r c w) = trace w @ evs
     \<and> content_writes evs \<le> 1 \<and> list_all (write_ok env r) evs"
proof (cases "resolve_source env w")
  case (Inl e)
  then show ?thesis by (simp add: saveContent_failed_early save_failed_def emit_def)
next
  case (Inr w1)
  note w1 = resolve_source_db [OF Inr]
  show ?thesis
  proof (cases "falsy (sourceId w1)")
    case True
    with Inr w1 show ?thesis by (simp add: saveContent_unresolved emit_def)
  next
    case False
    then obtain sid where sid: "sourceId w1 = Some sid" "sid \<noteq> []"
      by (auto simp: falsy_def)
    show ?thesis
    proof (cases "select_content env (url r) (db w)")
      case (Inl e)
      with Inr sid w1 show ?thesis
        by (simp add: saveContent_select_failed save_failed_def emit_def)
    next
      case sel: (Inr existing)
      show ?thesis
      proof (cases existing)
        case None
        obtain answer d where wr: "insert_content env (contentData env sid r) (db w) = (answer, d)"
          by (cases "insert_content env (contentData env sid r) (db w)")
        from Inr sid sel None wr w1 show ?thesis
          by (cases answer) (simp_all add: saveContent_insert save_failed_def emit_def)
      next
        case (Some row)
        show ?thesis
        proof (cases "row_hash row = Some (contentHash env r)")
          case True
          with Inr sid sel Some w1 show ?thesis by (simp add: saveContent_unchanged)
        next
          case False
          obtain answer d where wr:
            "update_content env (row_id row) (contentData env sid r) (db w) = (answer, d)"
            by (cases "update_content env (row_id row) (contentData env sid r) (db w)")
          from Inr sid sel Some False wr w1 show ?thesis
            by (cases answer) (simp_all add: saveContent_update save_failed_def emit_def)
        qed
      qed
    qed
  qed
qed

lemma contentData_fields:
  "cd_url (contentData env sid r) = url r"
  "content_hash (contentData env sid r) = contentHash env r"
  "cd_content (contentData env sid r) = content r"
  by (simp_all add: contentData_def)

lemma lesson_result_url: "url lesson_result = lesson_url"
  by (simp add: lesson_result_def site_defs scrapePage_def extract_page_fields)

text \<open>
  Claim C1, as the code has it. The fingerprint \<open>saveContent\<close> computes is the digest of
  the \<open>content\<close> field alone, and it is the fingerprint of every write \<open>saveContent\<close>
  sends: results with equal content have equal fingerprints whatever their title and other
  fields, changing only those fields never changes the fingerprint, and results with
  different fingerprints have different content.
\<close>

theorem contentHash_content_only:
  "contentHash env r = sha256_hex env (content r)
   \<and> (content r1 = content r2 \<longrightarrow> contentHash env r1 = contentHash env r2)
   \<and> (contentHash env r1 \<noteq> contentHash env r2 \<longrightarrow> content r1 \<noteq> content r2)
   \<and> contentHash env (r\<lparr>url := u, title := t, markdown := m, codeSnippets := cs, wordCount := wc,
        characterCount := cc, keywords' := ks, topics := ts, error := er\<rparr>) = contentHash env r
   \<and> list_all (\<lambda>ev. case ev of
          ContentInsert d \<Rightarrow> content_hash d = contentHash env r
        | ContentUpdate i d \<Rightarrow> content_hash d = contentHash env r
        | _ \<Rightarrow> True)
        (drop (length (trace w)) (trace (saveContent env r c w)))"
proof -
  obtain evs where evs: "trace (saveContent env r c w) = trace w @ evs" "list_all (write_ok env r) evs"
    using saveContent_trace [of env r c w] by blast
  have "list_all (\<lambda>ev. case ev of
          ContentInsert d \<Rightarrow> content_hash d = contentHash env r
        | ContentUpdate i d \<Rightarrow> content_hash d = contentHash env r
        | _ \<Rightarrow> True) evs"
    using evs(2) by (auto simp: list_all_iff write_ok_def split: event.splits)
  with evs(1) show ?thesis by (auto simp: contentHash_def)
qed

theorem contentHash_content_only_witness:
  "content lesson_result = content (lesson_result\<lparr>title := ''Another title''\<rparr>)
   \<and> contentHash site_env lesson_result = contentHash site_env (lesson_result\<lparr>title := ''Another title''\<rparr>)
   \<and> contentHash site_env lesson_result \<noteq> contentHash site_env (lesson_result\<lparr>content := ''changed''\<rparr>)
   \<and> content lesson_result \<noteq> content (lesson_result\<lparr>content := ''changed''\<rparr>)"
  using contentHash_content_only [of site_env lesson_result lesson_result "lesson_result\<lparr>title := ''Another title''\<rparr>"]
    contentHash_content_only [of site_env lesson_result lesson_result "lesson_result\<lparr>content := ''changed''\<rparr>"]
  by (simp add: contentHash_def lesson_result_def site_defs scrapePage_def extract_page_def Let_def
      checksum_hex_def hex_digit_def text_of_def trim_def isWhiteSpace_def)

text \<open>
  The other direction of the claim as the specification states it (equal fingerprints only
  for equal content) holds for no digest of 64 characters, which is what
  \<open>digest('hex')\<close> of SHA-256 returns: there are finitely many such digests and
  infinitely many contents.
\<close>

theorem no_digest_of_64_digits_is_injective:
  "\<not> (\<exists>env :: unit env. (\<forall>s. length (sha256_hex env s) = 64)
        \<and> (\<forall>r1 r2. contentHash env r1 = contentHash env r2 \<longleftrightarrow> content r1 = content r2))"
proof
  assume "\<exists>env :: unit env. (\<forall>s. length (sha256_hex env s) = 64)
        \<and> (\<forall>r1 r2. contentHash env r1 = contentHash env r2 \<longleftrightarrow> content r1 = content r2)"
  then obtain env :: "unit env" where len: "\<And>s. length (sha256_hex env s) = 64"
    and iff: "\<And>r1 r2. contentHash env r1 = contentHash env r2 \<longleftrightarrow> content r1 = content r2"
    by blast
  have "inj (sha256_hex env)"
  proof (rule injI)
    fix s1 s2 assume eq: "sha256_hex env s1 = sha256_hex env s2"
    have "contentHash env (failure_result [] NonError\<lparr>content := s1\<rparr>)
        = contentHash env (failure_result [] NonError\<lparr>content := s2\<rparr>)"
      using eq by (simp add: contentHash_def)
    then show "s1 = s2" using iff by fastforce
  qed
  moreover have "range (sha256_hex env) \<subseteq> {s. set s \<subseteq> UNIV \<and> length s = 64}"
    using len by auto
  moreover have "finite {s :: string. set s \<subseteq> UNIV \<and> length s = 64}"
    by (rule finite_lists_length_eq) simp
  ultimately have "finite (UNIV :: string set)"
    by (meson finite_subset finite_imageD [of "sha256_hex env" UNIV] inj_on_def)
  then show False by (simp add: infinite_UNIV_listI)
qed

text \<open>
  Claim C2, as the code has it. When the knowledge source resolves and the store holds no
  record of the URL with the new fingerprint, \<open>saveContent\<close> sends exactly one write (an
  insert, or an update of the record found); when the store then returns that record with
  the fingerprint written, a second run on the same result sends none and leaves the store
  as it is. When the stored record of the URL has the new fingerprint, \<open>saveContent\<close>
  returns without writing. When the knowledge source does not resolve, it writes nothing.
  It never sends more than one write.
\<close>

theorem saveContent_idempotent:
  "(resolve_source env w = Inr w1 \<and> sourceId w1 = Some sid \<and> sid \<noteq> []
      \<and> select_content env (url r) (db w) = Inr existing
      \<and> (\<forall>row. existing = Some row \<longrightarrow> row_hash row \<noteq> Some (contentHash env r))
      \<and> (\<forall>answer d.
            (case existing of
               None \<Rightarrow> insert_content env (contentData env sid r) (db w)
             | Some row \<Rightarrow> update_content env (row_id row) (contentData env sid r) (db w)) = (answer, d)
            \<longrightarrow> (\<exists>row'. select_content env (url r) d = Inr (Some row')
                   \<and> row_hash row' = Some (contentHash env r)))
      \<longrightarrow> content_writes (trace (saveContent env r c w)) = content_writes (trace w) + 1
        \<and> content_writes (trace (saveContent env r c (saveContent env r c w)))
            = content_writes (trace (saveContent env r c w))
        \<and> db (saveContent env r c (saveContent env r c w)) = db (saveContent env r c w))
   \<and> (resolve_source env w = Inr w1 \<and> sourceId w1 = Some sid \<and> sid \<noteq> []
      \<and> select_content env (url r) (db w) = Inr (Some row)
      \<and> row_hash row = Some (contentHash env r)
      \<longrightarrow> trace (saveContent env r c w) = trace w \<and> db (saveContent env r c w) = db w)
   \<and> (resolve_source env w = Inr w1 \<and> falsy (sourceId w1)
      \<longrightarrow> content_writes (trace (saveContent env r c w)) = content_writes (trace w)
        \<and> db (saveContent env r c w) = db w)
   \<and> content_writes (trace (saveContent env r c w)) \<le> content_writes (trace w) + 1"
proof -
  have skip: "trace (saveContent env r c w) = trace w \<and> db (saveContent env r c w) = db w"
    if "resolve_source env w = Inr w1" "sourceId w1 = Some sid" "sid \<noteq> []"
      "select_content env (url r) (db w) = Inr (Some row)" "row_hash row = Some (contentHash env r)"
    for w w1 :: "'a world" and sid row
    using that resolve_source_db [OF that(1)] by (simp add: saveContent_unchanged)
  have unresolved: "content_writes (trace (saveContent env r c w)) = content_writes (trace w)
        \<and> db (saveContent env r c w) = db w"
    if "resolve_source env w = Inr w1" "falsy (sourceId w1)"
    using that resolve_source_db [OF that(1)] by (simp add: saveContent_unresolved emit_def)
  have bound: "content_writes (trace (saveContent env r c w)) \<le> content_writes (trace w) + 1"
    using saveContent_trace [of env r c w] by auto
  have twice: "content_writes (trace (saveContent env r c w)) = content_writes (trace w) + 1
        \<and> content_writes (trace (saveContent env r c (saveContent env r c w)))
            = content_writes (trace (saveContent env r c w))
        \<and> db (saveContent env r c (saveContent env r c w)) = db (saveContent env r c w)"
    if src: "resolve_source env w = Inr w1" "sourceId w1 = Some sid" "sid \<noteq> []"
      and sel: "select_content env (url r) (db w) = Inr existing"
      and fresh: "\<forall>row. existing = Some row \<longrightarrow> row_hash row \<noteq> Some (contentHash env r)"
      and coherent: "\<forall>answer d.
            (case existing of
               None \<Rightarrow> insert_content env (contentData env sid r) (db w)
             | Some row \<Rightarrow> update_content env (row_id row) (contentData env sid r) (db w)) = (answer, d)
            \<longrightarrow> (\<exists>row'. select_content env (url r) d = Inr (Some row')
                   \<and> row_hash row' = Some (contentHash env r))"
  proof -
    note w1 = resolve_source_db [OF src(1)]
    let ?op = "case existing of
               None \<Rightarrow> insert_content env (contentData env sid r) (db w)
             | Some row \<Rightarrow> update_content env (row_id row) (contentData env sid r) (db w)"
    obtain answer d where wr: "?op = (answer, d)" by (cases ?op)
    with coherent obtain row' where row': "select_content env (url r) d = Inr (Some row')"
      "row_hash row' = Some (contentHash env r)" by blast
    let ?w2 = "saveContent env r c w"
    have first: "content_writes (trace ?w2) = content_writes (trace w) + 1
        \<and> db ?w2 = d \<and> sourceId ?w2 = Some sid"
    proof (cases existing)
      case None
      with src sel wr w1 show ?thesis
        by (cases answer) (simp_all add: saveContent_insert save_failed_def emit_def)
    next
      case (Some row)
      with fresh have "row_hash row \<noteq> Some (contentHash env r)" by simp
      with Some src sel wr w1 show ?thesis
        by (cases answer) (simp_all add: saveContent_update save_failed_def emit_def)
    qed
    then have again: "resolve_source env ?w2 = Inr ?w2"
      using src(3) by (simp add: resolve_source_again)
    from first row' have "select_content env (url r) (db ?w2) = Inr (Some row')" by simp
    from skip [OF again _ src(3) this row'(2)] first show ?thesis by simp
  qed
  from twice skip unresolved bound show ?thesis by blast
qed

theorem saveContent_idempotent_witness:
  "resolve_source site_env seeded_store = Inr (seeded_store\<lparr>sourceId := Some ''src-1''\<rparr>)
   \<and> select_content site_env (url lesson_result) (db seeded_store) = Inr None
   \<and> content_writes (trace (saveContent site_env lesson_result ''a'' seeded_store)) = 1
   \<and> content_writes (trace (saveContent site_env lesson_result ''a''
        (saveContent site_env lesson_result ''a'' seeded_store))) = 1"
  using saveContent_idempotent [of site_env seeded_store "seeded_store\<lparr>sourceId := Some ''src-1''\<rparr>"
      "''src-1''" lesson_result None "''a''"]
  by (simp add: resolve_source_def falsy_def seeded_store_def site_env_def mem_env_def single_def
      FCC_BASE_def lesson_result_url contentData_fields)

text \<open>
  The claim as the specification states it (exactly one write on the first run, for every
  result) fails where the store has no FreeCodeCamp knowledge source: \<open>saveContent\<close>
  prints an error and returns before it computes the fingerprint.
\<close>

theorem no_write_without_knowledge_source:
  "content_writes (trace empty_store) = 0
   \<and> content_writes (trace (saveContent site_env lesson_result ''a'' empty_store)) = 0"
  by (simp add: saveContent_def resolve_source_def falsy_def empty_store_def site_env_def mem_env_def
      single_def emit_def)

section \<open>Rounding to double precision\<close>

lemma round_half_even_int [simp]: "round_half_even (of_int n) = n"
  by (simp add: round_half_even_def)



lemma round_half_even_numeral [simp]: "round_half_even (numeral n) = numeral n"
  using round_half_even_int [of "numeral n"] by simp

























section \<open>The batch scheduler\<close>

lemma progress_updates_append [simp]:
  "progress_updates (xs @ ys) = progress_updates xs @ progress_updates ys"
  by (induction xs) (auto simp: progress_updates_def split: option.splits)

lemma progress_updates_simps [simp]:
  "progress_updates [] = []"
  "progress_updates (JobUpdate j (JobProgress p) # tr) = p # progress_updates tr"
  "progress_updates (JobUpdate j (JobStarted n) # tr) = progress_updates tr"
  "progress_updates (JobUpdate j JobCompleted # tr) = progress_updates tr"
  "progress_updates (ConsoleError m x # tr) = progress_updates tr"
  "progress_updates (ConsoleLog m # tr) = progress_updates tr"
  "progress_updates (Delay ms # tr) = progress_updates tr"
  "progress_updates (OnProgress a b # tr) = progress_updates tr"
  "progress_updates (ContentInsert d # tr) = progress_updates tr"
  "progress_updates (ContentUpdate i d # tr) = progress_updates tr"
  by (simp_all add: progress_updates_def)

lemma progress_updates_writes:
  "list_all (write_ok env r) evs \<Longrightarrow> progress_updates evs = []"
  by (induction evs) (auto simp: progress_updates_def write_ok_def split: event.splits)

lemma saveContent_progress:
  "progress_updates (trace (saveContent env r c w)) = progress_updates (trace w)"
  using saveContent_trace [of env r c w] by (auto simp: progress_updates_writes)

lemma updateJob_trace:
  "\<exists>evs. trace (updateJob env j u w) = trace w @ JobUpdate j u # evs
     \<and> (evs = [] \<or> (\<exists>e. evs = [ConsoleError ''Error updating job:'' (Some e)]))"
  by (auto simp: updateJob_def store_write_def emit_def split: prod.splits sum.splits)

lemma updateJob_progress:
  "progress_updates (trace (updateJob env j (JobProgress p) w)) = progress_updates (trace w) @ [p]"
  "progress_updates (trace (updateJob env j (JobStarted n) w)) = progress_updates (trace w)"
  "progress_updates (trace (updateJob env j JobCompleted w)) = progress_updates (trace w)"
  using updateJob_trace [of env j "JobProgress p" w] updateJob_trace [of env j "JobStarted n" w]
    updateJob_trace [of env j JobCompleted w]
  by auto

text \<open>One result.\<close>

lemma process_result_counts:
  assumes "process_result env certSlug jobId onProgress n r st = (x, st1)"
  shows "successCount st1 = successCount st + (if success r then 1 else 0)"
    and "failedCount st1 = failedCount st + (if success r then 0 else 1)"
    and "progress_updates (trace (world st1))
          = progress_updates (trace (world st))
            @ [\<lparr>urls_processed = successCount st1 + failedCount st1, urls_failed = failedCount st1,
                progress_percentage = js_mul (js_div (of_nat (successCount st1 + failedCount st1)) (of_nat n)) 100,
                items_scraped = successCount st1\<rparr>]"
  using assms
  by (auto simp: process_result_def Let_def updateJob_progress saveContent_progress emit_def
      split: option.splits if_splits)

lemma process_result_quiet:
  "quiet onProgress \<Longrightarrow> fst (process_result env certSlug jobId onProgress n r st) = None"
  by (auto simp: process_result_def Let_def quiet_def split: option.splits)

lemma run_inv_step:
  assumes inv: "run_inv n rs p0 m st" and m: "m < length rs"
    and step: "process_result env certSlug jobId onProgress n (rs ! m) st = (x, st1)"
  shows "run_inv n rs p0 (Suc m) st1"
proof -
  note c = process_result_counts [OF step]
  have tk: "take (Suc m) rs = take m rs @ [rs ! m]"
    using m by (rule take_Suc_conv_app_nth)
  have s: "successCount st1 = length (filter success (take (Suc m) rs))"
    using c(1) inv by (simp add: run_inv_def tk)
  have f: "failedCount st1 = length (filter (\<lambda>r. \<not> success r) (take (Suc m) rs))"
    using c(2) inv by (simp add: run_inv_def tk)
  have "length (filter success (take (Suc m) rs)) + length (filter (\<lambda>r. \<not> success r) (take (Suc m) rs))
      = length (take (Suc m) rs)"
    by (rule sum_length_filter_compl)
  with m have k: "successCount st1 + failedCount st1 = Suc m" by (simp add: s f)
  have "progress_updates (trace (world st1))
      = (p0 @ map (progress_after n rs) [1..<Suc m]) @ [progress_after n rs (Suc m)]"
    using c(3) inv unfolding k by (simp add: run_inv_def progress_after_def s f)
  then show ?thesis using s f by (simp add: run_inv_def)
qed

lemma process_results_inv:
  assumes "run_inv n rs p0 m st" "drop m rs = bs @ rest"
    "process_results env certSlug jobId onProgress n bs st = (None, st1)"
  shows "run_inv n rs p0 (m + length bs) st1"
  using assms
proof (induction bs arbitrary: m st)
  case Nil
  then show ?case by simp
next
  case (Cons b bs)
  from Cons.prems(2) have m: "m < length rs" by (cases "m < length rs") auto
  with Cons.prems(2) have b: "rs ! m = b"
    by (metis Cons_nth_drop_Suc append_Cons list.inject)
  from Cons.prems(2) m have d: "drop (Suc m) rs = bs @ rest"
    by (metis Cons_nth_drop_Suc append_Cons list.inject)
  obtain x st2 where step: "process_result env certSlug jobId onProgress n b st = (x, st2)"
    by (cases "process_result env certSlug jobId onProgress n b st")
  with Cons.prems(3) have x: "x = None"
    and rest: "process_results env certSlug jobId onProgress n bs st2 = (None, st1)"
    by (auto split: option.splits)
  from run_inv_step [OF Cons.prems(1) m] step b have "run_inv n rs p0 (Suc m) st2" by simp
  from Cons.IH [OF this d rest] show ?case by simp
qed

lemma process_results_quiet:
  "quiet onProgress \<Longrightarrow> fst (process_results env certSlug jobId onProgress n bs st) = None"
proof (induction bs arbitrary: st)
  case Nil
  then show ?case by simp
next
  case (Cons b bs)
  obtain x st2 where step: "process_result env certSlug jobId onProgress n b st = (x, st2)"
    by (cases "process_result env certSlug jobId onProgress n b st")
  with process_result_quiet [OF Cons.prems, of env certSlug jobId n b st] have "x = None" by simp
  with step Cons show ?case by simp
qed

lemma js_slice_window:
  "0 \<le> i \<Longrightarrow> 0 < c \<Longrightarrow> i < int (length xs) \<Longrightarrow>
   js_slice xs i (i + c) = take (nat c) (drop (nat i) xs)"
  by (auto simp: js_slice_def slice_index_def Let_def min_def nat_add_distrib)

lemma run_inv_delay:
  "run_inv n rs p0 m st \<Longrightarrow> run_inv n rs p0 m (st\<lparr>world := emit (Delay ms) (world st)\<rparr>)"
  by (simp add: run_inv_def emit_def)

lemma batch_loop_inv:
  assumes "0 < concurrency config" "rs = map (scrapePage env) urls"
  shows "0 \<le> i \<Longrightarrow> run_inv n rs p0 (min (nat i) (length urls)) st \<Longrightarrow>
   batch_loop fuel env config certSlug jobId onProgress urls i st = Some (None, st1) \<Longrightarrow>
   n = length urls \<Longrightarrow> run_inv n rs p0 (length urls) st1"
proof (induction fuel arbitrary: i st)
  case 0
  then show ?case by simp
next
  case (Suc fuel)
  let ?c = "concurrency config"
  show ?case
  proof (cases "i < int (length urls)")
    case False
    with Suc.prems have "st1 = st" "min (nat i) (length urls) = length urls" by auto
    with Suc.prems(2) show ?thesis by simp
  next
    case True
    let ?batch = "take (nat ?c) (drop (nat i) urls)"
    let ?results = "map (scrapePage env) ?batch"
    have sl: "js_slice urls i (i + ?c) = ?batch"
      using Suc.prems(1) assms(1) True by (rule js_slice_window)
    obtain x st2 where pr: "process_results env certSlug jobId onProgress (length urls) ?results st = (x, st2)"
      by (cases "process_results env certSlug jobId onProgress (length urls) ?results st")
    let ?st3 = "if i + ?c < int (length urls) then st2\<lparr>world := emit (Delay (delayMs config)) (world st2)\<rparr> else st2"
    from Suc.prems(3) True sl pr have x: "x = None"
      and loop: "batch_loop fuel env config certSlug jobId onProgress urls (i + ?c) ?st3 = Some (None, st1)"
      by (auto simp: Let_def split: option.splits)
    have mi: "min (nat i) (length urls) = nat i" using True Suc.prems(1) by auto
    have dr: "drop (nat i) rs = ?results @ drop (nat ?c) (drop (nat i) rs)"
      by (simp add: assms(2) take_map [symmetric] drop_map [symmetric] del: drop_drop)
    from process_results_inv [OF _ dr] Suc.prems(2) pr x Suc.prems(4) mi
    have "run_inv n rs p0 (nat i + length ?results) st2" by simp
    moreover have "nat i + length ?results = min (nat (i + ?c)) (length urls)"
      using True Suc.prems(1) assms(1) by auto
    ultimately have inv2: "run_inv n rs p0 (min (nat (i + ?c)) (length urls)) st2"
      by simp
    have inv3: "run_inv n rs p0 (min (nat (i + ?c)) (length urls)) ?st3"
    proof (cases "i + ?c < int (length urls)")
      case True
      then have e: "?st3 = st2\<lparr>world := emit (Delay (delayMs config)) (world st2)\<rparr>" by simp
      show ?thesis unfolding e by (rule run_inv_delay [OF inv2])
    next
      case False
      then have e: "?st3 = st2" by simp
      show ?thesis unfolding e by (rule inv2)
    qed
    have "0 \<le> i + ?c" using Suc.prems(1) assms(1) by simp
    from Suc.IH [OF this inv3 loop Suc.prems(4)] show ?thesis .
  qed
qed

lemma batch_loop_total:
  assumes "0 < concurrency config" "quiet onProgress"
  shows "nat (int (length urls) - i) < fuel \<Longrightarrow>
   \<exists>st1. batch_loop fuel env config certSlug jobId onProgress urls i st = Some (None, st1)"
proof (induction fuel arbitrary: i st)
  case 0
  then show ?case by simp
next
  case (Suc fuel)
  let ?c = "concurrency config"
  show ?case
  proof (cases "i < int (length urls)")
    case False
    then show ?thesis by simp
  next
    case True
    let ?results = "map (scrapePage env) (js_slice urls i (i + ?c))"
    obtain x st2 where pr: "process_results env certSlug jobId onProgress (length urls) ?results st = (x, st2)"
      by (cases "process_results env certSlug jobId onProgress (length urls) ?results st")
    with process_results_quiet [OF assms(2), of env certSlug jobId "length urls" ?results st]
    have x: "x = None" by simp
    have "nat (int (length urls) - (i + ?c)) < fuel"
      using Suc.prems True assms(1) by auto
    from Suc.IH [OF this] True pr x show ?thesis by (simp add: Let_def)
  qed
qed

lemma batch_loop_never_ends:
  assumes "concurrency config \<le> 0"
  shows "i < int (length urls) \<Longrightarrow>
   batch_loop fuel env config certSlug jobId onProgress urls i st \<noteq> Some (None, st1)"
proof (induction fuel arbitrary: i st)
  case 0
  then show ?case by simp
next
  case (Suc fuel)
  let ?c = "concurrency config"
  let ?results = "map (scrapePage env) (js_slice urls i (i + ?c))"
  obtain x st2 where pr: "process_results env certSlug jobId onProgress (length urls) ?results st = (x, st2)"
    by (cases "process_results env certSlug jobId onProgress (length urls) ?results st")
  have "i + ?c < int (length urls)" using Suc.prems assms by simp
  from Suc.IH [OF this] Suc.prems pr show ?case
    by (cases x) (simp_all add: Let_def)
qed

lemma getCertificationPages_urls:
  "fst (getCertificationPages env u w) = fst (getCertificationPages env u w')"
  by (simp add: getCertificationPages_def split: sum.splits)

lemma getCertificationPages_length:
  "fst (getCertificationPages env u w) \<noteq> []" "length (fst (getCertificationPages env u w)) \<le> 50"
  by (auto simp: getCertificationPages_def push_links_root split: sum.splits)

lemma getCertificationPages_progress:
  "progress_updates (trace (snd (getCertificationPages env u w))) = progress_updates (trace w)"
  by (simp add: getCertificationPages_def emit_def split: sum.splits)

lemma run_inv_start:
  "run_inv n rs (progress_updates (trace w)) 0 \<lparr>world = w, successCount = 0, failedCount = 0\<rparr>"
  by (simp add: run_inv_def)

lemma start_world_progress:
  "progress_updates (trace (start_world env cert jobId w)) = progress_updates (trace w)"
proof -
  let ?w0 = "emit (ConsoleLog (''Starting scrape of '' @ cert_title cert @ ''...'')) w"
  have "progress_updates (trace (snd (getCertificationPages env (cert_url cert) ?w0)))
      = progress_updates (trace w)"
    by (simp add: getCertificationPages_progress) (simp add: emit_def)
  then show ?thesis
    by (simp add: start_world_def Let_def split_beta updateJob_progress) (simp add: emit_def)
qed

lemma scrapeCertification_unfold:
  "scrapeCertification fuel env config cert jobId onProgress w =
     (case batch_loop fuel env config (slug cert) jobId onProgress
             (fst (getCertificationPages env (cert_url cert) w)) 0
             \<lparr>world = start_world env cert jobId w, successCount = 0, failedCount = 0\<rparr> of
        None \<Rightarrow> None
      | Some (Some e, st) \<Rightarrow> Some (Inl e, world st)
      | Some (None, st) \<Rightarrow>
          Some (Inr \<lparr>succeeded = successCount st, failed = failedCount st,
                     total_urls = length (fst (getCertificationPages env (cert_url cert) w))\<rparr>,
                updateJob env jobId JobCompleted (world st)))"
proof -
  let ?w0 = "emit (ConsoleLog (''Starting scrape of '' @ cert_title cert @ ''...'')) w"
  have u: "fst (getCertificationPages env (cert_url cert) ?w0)
      = fst (getCertificationPages env (cert_url cert) w)"
    by (rule getCertificationPages_urls)
  show ?thesis
    unfolding scrapeCertification_def start_world_def Let_def split_beta u ..
qed

lemma scrapeCertification_completed:
  assumes run: "scrapeCertification fuel env config cert jobId onProgress w = Some (Inr s, w1)"
    and urls: "urls = fst (getCertificationPages env (cert_url cert) w)"
    and rs: "rs = map (scrapePage env) urls"
  shows "0 < concurrency config \<and> total_urls s = length urls
    \<and> succeeded s = length (filter success rs)
    \<and> failed s = length (filter (\<lambda>r. \<not> success r) rs)
    \<and> progress_updates (trace w1)
        = progress_updates (trace w) @ map (progress_after (length urls) rs) [1..<Suc (length urls)]"
proof -
  define st0 where "st0 = \<lparr>world = start_world env cert jobId w, successCount = 0, failedCount = 0\<rparr>"
  define out where "out = batch_loop fuel env config (slug cert) jobId onProgress urls 0 st0"
  have run': "(case out of
        None \<Rightarrow> None
      | Some (Some e, st) \<Rightarrow> Some (Inl e, world st)
      | Some (None, st) \<Rightarrow>
          Some (Inr \<lparr>succeeded = successCount st, failed = failedCount st, total_urls = length urls\<rparr>,
                updateJob env jobId JobCompleted (world st))) = Some (Inr s, w1)"
    using run unfolding scrapeCertification_unfold out_def st0_def urls .
  obtain st where loop: "out = Some (None, st)"
    and s: "s = \<lparr>succeeded = successCount st, failed = failedCount st, total_urls = length urls\<rparr>"
    and w1: "w1 = updateJob env jobId JobCompleted (world st)"
  proof (cases out)
    case None
    with run' show ?thesis by simp
  next
    case (Some p)
    obtain x st where p: "p = (x, st)" by (cases p)
    with Some run' that show ?thesis by (cases x) auto
  qed
  have ne: "0 < int (length urls)"
    using getCertificationPages_length(1) [of env "cert_url cert" w] by (simp add: urls)
  have c: "0 < concurrency config"
  proof (rule ccontr)
    assume "\<not> 0 < concurrency config"
    then have "concurrency config \<le> 0" by simp
    then have "out \<noteq> Some (None, st)"
      unfolding out_def using ne by (rule batch_loop_never_ends)
    with loop show False by simp
  qed
  have "run_inv (length urls) rs (progress_updates (trace w)) (min (nat 0) (length urls)) st0"
    using run_inv_start [of "length urls" rs "start_world env cert jobId w"]
    by (simp add: start_world_progress st0_def)
  from batch_loop_inv [OF c rs _ this loop [unfolded out_def]]
  have "run_inv (length urls) rs (progress_updates (trace w)) (length urls) st" by simp
  with c s w1 show ?thesis by (simp add: run_inv_def rs updateJob_progress)
qed

lemma scrapeCertification_total:
  assumes "0 < concurrency config" "quiet onProgress"
    and "length (fst (getCertificationPages env (cert_url cert) w)) < fuel"
  shows "\<exists>s w1. scrapeCertification fuel env config cert jobId onProgress w = Some (Inr s, w1)"
proof -
  define st0 where "st0 = \<lparr>world = start_world env cert jobId w, successCount = 0, failedCount = 0\<rparr>"
  from assms(3) have "nat (int (length (fst (getCertificationPages env (cert_url cert) w))) - 0) < fuel"
    by simp
  from batch_loop_total [OF assms(1,2) this]
  obtain st where "batch_loop fuel env config (slug cert) jobId onProgress
      (fst (getCertificationPages env (cert_url cert) w)) 0 st0 = Some (None, st)"
    by blast
  then show ?thesis unfolding scrapeCertification_unfold st0_def by simp
qed

lemma filter_results:
  "length (filter success (map (scrapePage env) us)) = length (filter (\<lambda>u. success (scrapePage env u)) us)"
  "length (filter (\<lambda>r. \<not> success r) (map (scrapePage env) us))
     = length (filter (\<lambda>u. \<not> success (scrapePage env u)) us)"
  by (simp_all add: filter_map o_def)



lemma scrapeCertification_summary:
  assumes run: "scrapeCertification fuel env config cert jobId onProgress w = Some (Inr s, w1)"
    and urls: "urls = fst (getCertificationPages env (cert_url cert) w)"
  shows "total_urls s = length urls"
    and "succeeded s = length (filter (\<lambda>u. success (scrapePage env u)) urls)"
    and "failed s = length (filter (\<lambda>u. \<not> success (scrapePage env u)) urls)"
    and "progress_updates (trace w1)
        = progress_updates (trace w)
          @ map (progress_after (length urls) (map (scrapePage env) urls)) [1..<Suc (length urls)]"
    and "0 < length urls"
proof -
  define rs where "rs = map (scrapePage env) urls"
  from scrapeCertification_completed [OF run urls rs_def]
  have t: "total_urls s = length urls" and sc: "succeeded s = length (filter success rs)"
    and fc: "failed s = length (filter (\<lambda>r. \<not> success r) rs)"
    and pu: "progress_updates (trace w1)
        = progress_updates (trace w) @ map (progress_after (length urls) rs) [1..<Suc (length urls)]"
    by simp_all
  show "total_urls s = length urls" by (rule t)
  show "succeeded s = length (filter (\<lambda>u. success (scrapePage env u)) urls)"
    using sc unfolding rs_def filter_results .
  show "failed s = length (filter (\<lambda>u. \<not> success (scrapePage env u)) urls)"
    using fc unfolding rs_def filter_results .
  show "progress_updates (trace w1)
        = progress_updates (trace w)
          @ map (progress_after (length urls) (map (scrapePage env) urls)) [1..<Suc (length urls)]"
    using pu unfolding rs_def .
  show "0 < length urls"
    using getCertificationPages_length(1) [of env "cert_url cert" w] by (simp add: urls Suc_le_eq)
qed











section \<open>Keywords\<close>

lemma map_of_table: "map_of (table cnt ks) w = (if w \<in> set ks then Some (JSNumber (cnt w)) else None)"
  by (induction ks) (auto simp: table_def)

lemma update_table_present:
  "distinct ks \<Longrightarrow> w \<in> set ks \<Longrightarrow> AList.update w (JSNumber v) (table cnt ks) = table (cnt(w := v)) ks"
  by (induction ks) (auto simp: table_def)

lemma update_table_absent:
  "w \<notin> set ks \<Longrightarrow> AList.update w (JSNumber v) (table cnt ks) = table (cnt(w := v)) (ks @ [w])"
  by (induction ks) (auto simp: table_def)

lemma count_word_table:
  assumes "w \<noteq> ''constructor''" "distinct ks"
  shows "count_word (table cnt ks) w =
     (if w \<in> set ks then table (cnt(w := cnt w + 1)) ks
      else if w = ''__proto__'' then table cnt ks
      else table (cnt(w := 1)) (ks @ [w]))"
  using assms
  by (simp add: count_word_def map_of_table update_table_present update_table_absent)

lemma table_cong: "(\<And>w. w \<in> set ks \<Longrightarrow> c w = c' w) \<Longrightarrow> table c ks = table c' ks"
  by (simp add: table_def)

lemma keys_present:
  "w \<in> set ks \<Longrightarrow>
   filter (\<lambda>y. y \<notin> set ks) (first_seen (w # t)) = filter (\<lambda>y. y \<notin> set ks) (first_seen t)"
  by (auto intro: filter_cong)

lemma keys_absent:
  "w \<notin> set ks \<Longrightarrow>
   (ks @ [w]) @ filter (\<lambda>y. y \<notin> set (ks @ [w])) (first_seen t)
     = ks @ filter (\<lambda>y. y \<notin> set ks) (first_seen (w # t))"
  by (auto intro: filter_cong)

lemma distinct_keys:
  "distinct ks \<Longrightarrow> distinct (ks @ filter (\<lambda>y. y \<notin> set ks) (first_seen t))"
  by (auto simp: distinct_first_seen)

lemma frequency_table:
  assumes "''constructor'' \<notin> set ws" "''__proto__'' \<notin> set ks" "\<And>v. v \<notin> set ks \<Longrightarrow> cnt v = 0"
    "distinct ks"
  shows "foldl count_word (table cnt ks) ws =
     table (\<lambda>v. cnt v + count_list (filter (\<lambda>w. w \<noteq> ''__proto__'') ws) v)
       (ks @ filter (\<lambda>y. y \<notin> set ks) (first_seen (filter (\<lambda>w. w \<noteq> ''__proto__'') ws)))"
  using assms
proof (induction ws arbitrary: ks cnt)
  case Nil
  then show ?case by simp
next
  case (Cons w ws)
  let ?t = "filter (\<lambda>w. w \<noteq> ''__proto__'') ws"
  from Cons.prems(1) have wc: "w \<noteq> ''constructor''" and rest: "''constructor'' \<notin> set ws" by auto
  show ?case
  proof (cases "w \<in> set ks")
    case True
    then have wp: "w \<noteq> ''__proto__''" using Cons.prems(2) by auto
    have z: "\<And>v. v \<notin> set ks \<Longrightarrow> (cnt(w := cnt w + 1)) v = 0"
      using Cons.prems(3) True by auto
    have "foldl count_word (table cnt ks) (w # ws) = foldl count_word (table (cnt(w := cnt w + 1)) ks) ws"
      using True by (simp add: count_word_table [OF wc Cons.prems(4)])
    also have "\<dots> = table (\<lambda>v. (cnt(w := cnt w + 1)) v + count_list ?t v)
        (ks @ filter (\<lambda>y. y \<notin> set ks) (first_seen ?t))"
      by (rule Cons.IH [OF rest Cons.prems(2) z Cons.prems(4)])
    also have "\<dots> = table (\<lambda>v. cnt v + count_list (w # ?t) v)
        (ks @ filter (\<lambda>y. y \<notin> set ks) (first_seen ?t))"
      by (intro table_cong) auto
    also have "filter (\<lambda>y. y \<notin> set ks) (first_seen ?t)
        = filter (\<lambda>y. y \<notin> set ks) (first_seen (w # ?t))"
      using True by (rule keys_present [symmetric])
    finally show ?thesis using wp by simp
  next
    case False
    show ?thesis
    proof (cases "w = ''__proto__''")
      case True
      have "foldl count_word (table cnt ks) (w # ws) = foldl count_word (table cnt ks) ws"
        using True False count_word_table [OF wc Cons.prems(4), of cnt] by simp
      also have "\<dots> = table (\<lambda>v. cnt v + count_list ?t v)
          (ks @ filter (\<lambda>y. y \<notin> set ks) (first_seen ?t))"
        by (rule Cons.IH [OF rest Cons.prems(2,3,4)])
      finally show ?thesis using True by simp
    next
      case wp: False
      have p: "''__proto__'' \<notin> set (ks @ [w])" using Cons.prems(2) wp by auto
      have z: "\<And>v. v \<notin> set (ks @ [w]) \<Longrightarrow> (cnt(w := 1)) v = 0"
        using Cons.prems(3) by auto
      have dk: "distinct (ks @ [w])" using Cons.prems(4) False by simp
      have "foldl count_word (table cnt ks) (w # ws) = foldl count_word (table (cnt(w := 1)) (ks @ [w])) ws"
        using False wp by (simp add: count_word_table [OF wc Cons.prems(4)])
      also have "\<dots> = table (\<lambda>v. (cnt(w := 1)) v + count_list ?t v)
          ((ks @ [w]) @ filter (\<lambda>y. y \<notin> set (ks @ [w])) (first_seen ?t))"
        by (rule Cons.IH [OF rest p z dk])
      also have "(ks @ [w]) @ filter (\<lambda>y. y \<notin> set (ks @ [w])) (first_seen ?t)
          = ks @ filter (\<lambda>y. y \<notin> set ks) (first_seen (w # ?t))"
        using False by (rule keys_absent)
      also have "table (\<lambda>v. (cnt(w := 1)) v + count_list ?t v)
            (ks @ filter (\<lambda>y. y \<notin> set ks) (first_seen (w # ?t)))
          = table (\<lambda>v. cnt v + count_list (w # ?t) v)
            (ks @ filter (\<lambda>y. y \<notin> set ks) (first_seen (w # ?t)))"
        using Cons.prems(3) [OF False] by (intro table_cong) auto
      finally show ?thesis using wp by simp
    qed
  qed
qed

lemma insort_key_map:
  "insort_key f (h x) (map h ys) = map h (insort_key (\<lambda>y. f (h y)) x ys)"
  by (induction ys) auto

lemma sort_key_map:
  "sort_key f (map h xs) = map h (sort_key (\<lambda>y. f (h y)) xs)"
  by (induction xs) (auto simp: insort_key_map)

lemma object_entries_table:
  "object_entries (table cnt ks) = table cnt (entries_order ks)"
  by (simp add: object_entries_def entries_order_def table_def filter_map o_def sort_key_map)

lemma insert_sorted_table:
  "insert_sorted by_frequency (w, JSNumber (cnt w)) (table cnt ys)
     = table cnt (insort_key (\<lambda>v. - int (cnt v)) w ys)"
  by (induction ys) (auto simp: table_def sort_compare_def by_frequency_def to_number_def)

lemma stable_sort_table:
  "stable_sort by_frequency (table cnt ks) = table cnt (sort_key (\<lambda>v. - int (cnt v)) ks)"
proof (induction ks)
  case Nil
  then show ?case by (simp add: stable_sort_def table_def)
next
  case (Cons k ks)
  have "stable_sort by_frequency (table cnt (k # ks))
      = insert_sorted by_frequency (k, JSNumber (cnt k)) (stable_sort by_frequency (table cnt ks))"
    by (simp add: stable_sort_def table_def)
  with Cons show ?case by (simp add: insert_sorted_table)
qed

text \<open>On a table of numbers the comparator is consistent: it orders the entries by count.\<close>

lemma by_frequency_table:
  "a \<in> set (table cnt ks) \<Longrightarrow> b \<in> set (table cnt ks) \<Longrightarrow>
   sort_compare by_frequency a b = int (cnt (fst b)) - int (cnt (fst a))"
  by (auto simp: table_def sort_compare_def by_frequency_def to_number_def)

lemma consistent_table: "consistent by_frequency (table cnt ks)"
  unfolding consistent_def by (auto simp: by_frequency_table)

lemma array_sort_table:
  "array_sort env by_frequency (table cnt ks) = table cnt (sort_key (\<lambda>v. - int (cnt v)) ks)"
  by (simp add: array_sort_def consistent_table stable_sort_table)

lemma fst_table: "map fst (take n (table cnt ks)) = take n ks"
  by (simp add: table_def take_map [symmetric] o_def)

lemma entries_order_plain:
  "list_all (\<lambda>w. \<not> is_array_index w) ks \<Longrightarrow> entries_order ks = ks"
  by (simp add: entries_order_def list_all_iff)

lemma keyword_tokens_fixture:
  "keyword_tokens ''zeta 1234'' = [''zeta'', ''1234'']"
  "keyword_tokens ''constructor calls calls'' = [''constructor'', ''calls'', ''calls'']"
  "keyword_tokens ''__proto__ chain'' = [''__proto__'', ''chain'']"
  by (simp_all add: keyword_tokens_def toLowerCase_def isUpperCase_def isWordChar_def)


text \<open>
  Claim C6, as the code has it. \<open>extractKeywords\<close> lower-cases the content, splits it at the
  runs of non-word characters, keeps the tokens of 4 characters or more, counts them, and
  returns the first ten by descending count; tokens of equal count come in the order in
  which \<open>Object.entries\<close> lists the frequency table: first the tokens that are array
  indices, by value, then the others in the order of their first occurrence. Where no
  token is an array index, the ties are broken by first occurrence, as the specification
  says. This is stated for content in which no token is a name that a plain object
  inherits (\<open>constructor\<close>, \<open>__proto__\<close>); such a token is not counted as the others
  are, and nothing is stated about it here.
\<close>

theorem extractKeywords_ranking:
  "(''constructor'' \<notin> set (keyword_tokens c) \<and> ''__proto__'' \<notin> set (keyword_tokens c) \<longrightarrow>
      extractKeywords env c =
        (let ws = keyword_tokens c
         in take 10 (sort_key (\<lambda>w. - int (count_list ws w)) (entries_order (first_seen ws)))))
   \<and> (''constructor'' \<notin> set (keyword_tokens c) \<and> ''__proto__'' \<notin> set (keyword_tokens c)
      \<and> list_all (\<lambda>w. \<not> is_array_index w) (keyword_tokens c) \<longrightarrow>
      extractKeywords env c = ranked_keywords c)
   \<and> keyword_tokens c
        = filter (\<lambda>w. 4 \<le> length w) (split_runs (\<lambda>ch. \<not> isWordChar ch) (toLowerCase c))"
proof -
  let ?ws = "keyword_tokens c"
  let ?cnt = "\<lambda>v. count_list ?ws v"
  have general: "extractKeywords env c
      = take 10 (sort_key (\<lambda>w. - int (count_list ?ws w)) (entries_order (first_seen ?ws)))"
    if nc: "''constructor'' \<notin> set ?ws" and np: "''__proto__'' \<notin> set ?ws"
  proof -
    from np have ws: "filter (\<lambda>w. w \<noteq> ''__proto__'') ?ws = ?ws" by (auto simp: filter_id_conv)
    have "foldl count_word (table (\<lambda>v. 0) []) ?ws
        = table (\<lambda>v. 0 + count_list (filter (\<lambda>w. w \<noteq> ''__proto__'') ?ws) v)
            ([] @ filter (\<lambda>y. y \<notin> set []) (first_seen (filter (\<lambda>w. w \<noteq> ''__proto__'') ?ws)))"
      by (rule frequency_table [OF nc]) simp_all
    then have fr: "foldl count_word [] ?ws = table ?cnt (first_seen ?ws)"
      unfolding ws by (simp add: table_def)
    show ?thesis
      unfolding extractKeywords_def Let_def fr object_entries_table array_sort_table fst_table ..
  qed
  have plain: "extractKeywords env c = ranked_keywords c"
    if nc: "''constructor'' \<notin> set ?ws" and np: "''__proto__'' \<notin> set ?ws"
      and ni: "list_all (\<lambda>w. \<not> is_array_index w) ?ws"
  proof -
    from ni have "list_all (\<lambda>w. \<not> is_array_index w) (first_seen ?ws)"
      by (simp add: list_all_iff set_first_seen)
    then have "entries_order (first_seen ?ws) = first_seen ?ws"
      by (rule entries_order_plain)
    with general [OF nc np] show ?thesis by (simp add: ranked_keywords_def Let_def)
  qed
  have tokens: "keyword_tokens c
        = filter (\<lambda>w. 4 \<le> length w) (split_runs (\<lambda>ch. \<not> isWordChar ch) (toLowerCase c))"
    by (simp add: keyword_tokens_def Suc_le_eq) (rule filter_cong, auto)
  from general plain tokens show ?thesis unfolding Let_def by blast
qed


theorem extractKeywords_ranking_witness:
  "''constructor'' \<notin> set (keyword_tokens ''Dogs chase cats; cats CHASE dogs, cats'')
   \<and> ''__proto__'' \<notin> set (keyword_tokens ''Dogs chase cats; cats CHASE dogs, cats'')
   \<and> list_all (\<lambda>w. \<not> is_array_index w) (keyword_tokens ''Dogs chase cats; cats CHASE dogs, cats'')
   \<and> keyword_tokens ''Dogs chase cats; cats CHASE dogs, cats''
        = [''dogs'', ''chase'', ''cats'', ''cats'', ''chase'', ''dogs'', ''cats'']
   \<and> extractKeywords site_env ''Dogs chase cats; cats CHASE dogs, cats'' = [''cats'', ''dogs'', ''chase'']
   \<and> ranked_keywords ''Dogs chase cats; cats CHASE dogs, cats'' = [''cats'', ''dogs'', ''chase'']"
proof -
  define c where "c = ''Dogs chase cats; cats CHASE dogs, cats''"
  have t: "keyword_tokens c = [''dogs'', ''chase'', ''cats'', ''cats'', ''chase'', ''dogs'', ''cats'']"
    by (simp add: c_def keyword_tokens_def toLowerCase_def isUpperCase_def isWordChar_def)
  have h: "''constructor'' \<notin> set (keyword_tokens c)" "''__proto__'' \<notin> set (keyword_tokens c)"
    "list_all (\<lambda>w. \<not> is_array_index w) (keyword_tokens c)"
    by (simp_all add: t is_array_index_def isDigit_def)
  from extractKeywords_ranking [of c site_env] h have "extractKeywords site_env c = ranked_keywords c"
    by blast
  moreover have "ranked_keywords c = [''cats'', ''dogs'', ''chase'']"
    by (simp add: ranked_keywords_def t Let_def)
  ultimately show ?thesis using h t unfolding c_def by simp
qed


text \<open>
  The claim as the specification states it (every token counted, ties broken by first
  occurrence) fails on three contents. In \<open>zeta 1234\<close> both tokens occur once, \<open>zeta\<close>
  first, and \<open>1234\<close> is returned first. In \<open>constructor calls calls\<close> the count of
  \<open>constructor\<close> is a string, the comparator gives \<open>NaN\<close> and is consistent on the two
  entries, which compare equal: the sort leaves them as they are, whatever the engine, the
  token that occurs once before the one that occurs twice. In \<open>__proto__ chain\<close> the
  first token is not returned at all.
\<close>

theorem array_index_tokens_come_first:
  "extractKeywords site_env ''zeta 1234'' = [''1234'', ''zeta'']
   \<and> ranked_keywords ''zeta 1234'' = [''zeta'', ''1234'']
   \<and> object_entries (foldl count_word [] (keyword_tokens ''constructor calls calls''))
       = [(''constructor'', JSString ''function Object() { [native code] }1''), (''calls'', JSNumber 2)]
   \<and> consistent by_frequency
       [(''constructor'', JSString ''function Object() { [native code] }1''), (''calls'', JSNumber 2)]
   \<and> extractKeywords site_env ''constructor calls calls'' = [''constructor'', ''calls'']
   \<and> ranked_keywords ''constructor calls calls'' = [''calls'', ''constructor'']
   \<and> extractKeywords site_env ''__proto__ chain'' = [''chain'']
   \<and> ranked_keywords ''__proto__ chain'' = [''__proto__'', ''chain'']"
proof -
  note t = keyword_tokens_fixture
  have i: "is_array_index ''1234''" "\<not> is_array_index ''zeta''" "digits_value ''1234'' = 1234"
    "\<not> is_array_index ''constructor''" "\<not> is_array_index ''calls''" "\<not> is_array_index ''chain''"
    by (simp_all add: is_array_index_def isDigit_def digits_value_def)
  have e: "object_entries (foldl count_word [] (keyword_tokens ''zeta 1234''))
      = [(''1234'', JSNumber (Suc 0)), (''zeta'', JSNumber (Suc 0))]"
    "object_entries (foldl count_word [] (keyword_tokens ''constructor calls calls''))
      = [(''constructor'', JSString ''function Object() { [native code] }1''), (''calls'', JSNumber 2)]"
    "object_entries (foldl count_word [] (keyword_tokens ''__proto__ chain'')) = [(''chain'', JSNumber (Suc 0))]"
    by (simp_all add: t count_word_def object_entries_def i)
  have k: "consistent by_frequency [(''1234'', JSNumber (Suc 0)), (''zeta'', JSNumber (Suc 0))]"
    "consistent by_frequency
       [(''constructor'', JSString ''function Object() { [native code] }1''), (''calls'', JSNumber 2)]"
    "consistent by_frequency [(''chain'', JSNumber (Suc 0))]"
    by (simp_all add: consistent_def sort_compare_def by_frequency_def to_number_def)
  have a: "extractKeywords site_env ''zeta 1234'' = [''1234'', ''zeta'']"
    "extractKeywords site_env ''constructor calls calls'' = [''constructor'', ''calls'']"
    "extractKeywords site_env ''__proto__ chain'' = [''chain'']"
    by (simp_all add: extractKeywords_def Let_def e array_sort_def k stable_sort_def sort_compare_def
        by_frequency_def to_number_def)
  have b: "ranked_keywords ''zeta 1234'' = [''zeta'', ''1234'']"
    "ranked_keywords ''constructor calls calls'' = [''calls'', ''constructor'']"
    "ranked_keywords ''__proto__ chain'' = [''__proto__'', ''chain'']"
    by (simp_all add: ranked_keywords_def t Let_def)
  from a b e(2) k(2) show ?thesis by simp
qed

section \<open>Runs over the site in memory\<close>

lemma default_config:
  "concurrency (new_FCCScraper no_config) = 3" "delayMs (new_FCCScraper no_config) = 1000"
  by (simp_all add: new_FCCScraper_def no_config_def or_default_def)

lemma site_urls:
  "axios_get env = site_get \<Longrightarrow> cheerio_load env = site_load \<Longrightarrow>
   getCertificationPages env root_url w = ([root_url, lesson_url, missing_url], w)"
  by (simp add: getCertificationPages_def site_get_def site_load_def root_url_def lesson_url_def
      missing_url_def listing_page_def anchor_def attr_def startsWith_def FCC_BASE_def learn_links_def)

lemma site_results:
  assumes "axios_get env = site_get" "cheerio_load env = site_load"
  shows "success (scrapePage env root_url)" "success (scrapePage env lesson_url)"
    "\<not> success (scrapePage env missing_url)" "url (scrapePage env u) = u"
  using assms
  by (auto simp: scrapePage_def site_get_def site_load_def root_url_def lesson_url_def missing_url_def
      extract_page_fields failure_result_fields split: sum.splits)

text \<open>A run whose URLs fit in one batch goes once through the outer loop.\<close>

lemma batch_loop_single:
  assumes "2 \<le> fuel" "urls \<noteq> []" "int (length urls) \<le> concurrency config"
  shows "batch_loop fuel env config certSlug jobId onProgress urls 0 st =
     Some (process_results env certSlug jobId onProgress (length urls) (map (scrapePage env) urls) st)"
proof -
  from assms(1) obtain f where f: "fuel = Suc (Suc f)"
    by (metis Suc_le_D numeral_2_eq_2 Suc_le_mono)
  have c: "0 < concurrency config" using assms(2,3) by (cases urls) auto
  have sl: "js_slice urls 0 (0 + concurrency config) = urls"
    using assms(2,3) c by (subst js_slice_window) auto
  obtain x st1 where p: "process_results env certSlug jobId onProgress (length urls) (map (scrapePage env) urls) st = (x, st1)"
    by (cases "process_results env certSlug jobId onProgress (length urls) (map (scrapePage env) urls) st")
  show ?thesis
    unfolding f using assms(2,3) sl p by (cases x) (simp_all add: Let_def)
qed

lemma string_of_three: "string_of_nat (Suc (Suc (Suc 0))) = ''3''"
  by (simp add: string_of_nat.simps char_of_def numeral_3_eq_3 [symmetric] bit_0)

text \<open>
  Claim C8, where the code departs from it. The claim holds for a fetch or a parse that
  fails (the item is counted as failed and the run goes on) and for a write that throws,
  which \<open>saveContent\<close> catches and prints. But a Supabase write reports a failure in the
  \<open>error\<close> of the response it resolves to, and \<open>saveContent\<close> awaits that response
  without reading it. Over a store that refuses every insert in this way, the run over
  the three pages of the site sends its two inserts, counts both pages as successes,
  stores nothing and prints no error. Over a store whose inserts throw, the same insert
  is followed by the console error.
\<close>

theorem refused_write_is_not_logged:
  "map_option (\<lambda>rw. (fst rw, contents (db (snd rw)), trace (snd rw)))
     (scrapeCertification 51 refusing_insert_env (new_FCCScraper no_config) fcc_cert ''job-1'' None seeded_store)
   = Some (Inr \<lparr>succeeded = 2, failed = 1, total_urls = 3\<rparr>, [],
       [ConsoleLog ''Starting scrape of A...'', ConsoleLog ''Found 3 pages in A'',
        JobUpdate ''job-1'' (JobStarted 3),
        ContentInsert (contentData refusing_insert_env ''src-1'' (scrapePage refusing_insert_env root_url)),
        JobUpdate ''job-1'' (JobProgress \<lparr>urls_processed = 1, urls_failed = 0,
          progress_percentage = js_mul (js_div 1 3) 100, items_scraped = 1\<rparr>),
        ContentInsert (contentData refusing_insert_env ''src-1'' (scrapePage refusing_insert_env lesson_url)),
        JobUpdate ''job-1'' (JobProgress \<lparr>urls_processed = 2, urls_failed = 0,
          progress_percentage = js_mul (js_div 2 3) 100, items_scraped = 2\<rparr>),
        JobUpdate ''job-1'' (JobProgress \<lparr>urls_processed = 3, urls_failed = 1,
          progress_percentage = js_mul (js_div 3 3) 100, items_scraped = 2\<rparr>),
        JobUpdate ''job-1'' JobCompleted])
   \<and> insert_content refusing_insert_env
        (contentData refusing_insert_env ''src-1'' (scrapePage refusing_insert_env lesson_url)) (db seeded_store)
       = (Inr (Response (Some ''permission denied for table knowledge_content'')), db seeded_store)
   \<and> trace (saveContent failing_insert_env (scrapePage failing_insert_env lesson_url) ''a'' seeded_store)
       = [ContentInsert (contentData failing_insert_env ''src-1'' (scrapePage failing_insert_env lesson_url)),
          ConsoleError ''Error saving content:'' (Some (Error ''insert failed''))]"
proof -
  define env where "env = refusing_insert_env"
  have f: "axios_get env = site_get" "cheerio_load env = site_load"
    "select_source_id env = select_source_id site_env" "select_content env = select_content site_env"
    "update_job env = update_job site_env"
    "insert_content env = (\<lambda>row d. (Inr (Response (Some ''permission denied for table knowledge_content'')), d))"
    by (simp_all add: env_def refusing_insert_env_def site_env_def mem_env_def)
  have g: "axios_get failing_insert_env = site_get" "cheerio_load failing_insert_env = site_load"
    by (simp_all add: failing_insert_env_def site_env_def mem_env_def)
  have run: "map_option (\<lambda>rw. (fst rw, contents (db (snd rw)), trace (snd rw)))
     (scrapeCertification 51 env (new_FCCScraper no_config) fcc_cert ''job-1'' None seeded_store)
   = Some (Inr \<lparr>succeeded = 2, failed = 1, total_urls = 3\<rparr>, [],
       [ConsoleLog ''Starting scrape of A...'', ConsoleLog ''Found 3 pages in A'',
        JobUpdate ''job-1'' (JobStarted 3),
        ContentInsert (contentData env ''src-1'' (scrapePage env root_url)),
        JobUpdate ''job-1'' (JobProgress \<lparr>urls_processed = 1, urls_failed = 0,
          progress_percentage = js_mul (js_div 1 3) 100, items_scraped = 1\<rparr>),
        ContentInsert (contentData env ''src-1'' (scrapePage env lesson_url)),
        JobUpdate ''job-1'' (JobProgress \<lparr>urls_processed = 2, urls_failed = 0,
          progress_percentage = js_mul (js_div 2 3) 100, items_scraped = 2\<rparr>),
        JobUpdate ''job-1'' (JobProgress \<lparr>urls_processed = 3, urls_failed = 1,
          progress_percentage = js_mul (js_div 3 3) 100, items_scraped = 2\<rparr>),
        JobUpdate ''job-1'' JobCompleted])"
    by (simp add: scrapeCertification_unfold fcc_cert_def site_urls [OF f(1,2)] site_results [OF f(1,2)]
        default_config batch_loop_single start_world_def process_result_def Let_def saveContent_def
        updateJob_def store_write_def emit_def resolve_source_def falsy_def seeded_store_def f
        site_env_def mem_env_def single_def FCC_BASE_def string_of_three)
  have thrown: "trace (saveContent failing_insert_env (scrapePage failing_insert_env lesson_url) ''a'' seeded_store)
       = [ContentInsert (contentData failing_insert_env ''src-1'' (scrapePage failing_insert_env lesson_url)),
          ConsoleError ''Error saving content:'' (Some (Error ''insert failed''))]"
    by (simp add: saveContent_def store_write_def emit_def save_failed_def resolve_source_def falsy_def
        seeded_store_def failing_insert_env_def site_env_def mem_env_def single_def FCC_BASE_def)
  from run thrown show ?thesis
    unfolding env_def by (simp add: refusing_insert_env_def)
qed

section \<open>What the job record keeps\<close>

lemma updateJob_db: "db (updateJob env j u w) = snd (update_job env j u (db w))"
  by (simp add: updateJob_def store_write_def emit_def split: prod.splits sum.splits)

lemma process_result_stored:
  assumes "\<And>p d. stored (snd (update_job env jobId (JobProgress p) d)) = Some (urls_processed p)"
    and "process_result env certSlug jobId onProgress n r st = (x, st1)"
  shows "stored (db (world st1)) = Some (successCount st1 + failedCount st1)"
  using assms(2)
  by (auto simp: process_result_def Let_def updateJob_db assms(1) emit_def split: option.splits if_splits)

lemma process_results_stored:
  assumes "\<And>p d. stored (snd (update_job env jobId (JobProgress p) d)) = Some (urls_processed p)"
  shows "process_results env certSlug jobId onProgress n rs st = (x, st1) \<Longrightarrow>
   0 < successCount st + failedCount st \<longrightarrow> stored (db (world st)) = Some (successCount st + failedCount st) \<Longrightarrow>
   0 < successCount st1 + failedCount st1 \<longrightarrow> stored (db (world st1)) = Some (successCount st1 + failedCount st1)"
proof (induction rs arbitrary: st)
  case Nil
  then show ?case by simp
next
  case (Cons r rs)
  obtain y st2 where step: "process_result env certSlug jobId onProgress n r st = (y, st2)"
    by (cases "process_result env certSlug jobId onProgress n r st")
  note s2 = process_result_stored [OF assms step]
  show ?case
  proof (cases y)
    case None
    with Cons.prems(1) step
    have "process_results env certSlug jobId onProgress n rs st2 = (x, st1)" by simp
    from Cons.IH [OF this] s2 show ?thesis by simp
  next
    case (Some e)
    with Cons.prems(1) step have "st1 = st2" by simp
    with s2 show ?thesis by simp
  qed
qed

lemma batch_loop_stored:
  assumes "\<And>p d. stored (snd (update_job env jobId (JobProgress p) d)) = Some (urls_processed p)"
  shows "batch_loop fuel env config certSlug jobId onProgress urls i st = Some (x, st1) \<Longrightarrow>
   0 < successCount st + failedCount st \<longrightarrow> stored (db (world st)) = Some (successCount st + failedCount st) \<Longrightarrow>
   0 < successCount st1 + failedCount st1 \<longrightarrow> stored (db (world st1)) = Some (successCount st1 + failedCount st1)"
proof (induction fuel arbitrary: i st)
  case 0
  then show ?case by simp
next
  case (Suc fuel)
  let ?c = "concurrency config"
  show ?case
  proof (cases "i < int (length urls)")
    case False
    with Suc.prems show ?thesis by simp
  next
    case True
    let ?results = "map (scrapePage env) (js_slice urls i (i + ?c))"
    obtain y st2 where pr: "process_results env certSlug jobId onProgress (length urls) ?results st = (y, st2)"
      by (cases "process_results env certSlug jobId onProgress (length urls) ?results st")
    note s2 = process_results_stored [OF assms pr Suc.prems(2)]
    show ?thesis
    proof (cases y)
      case (Some e)
      with Suc.prems(1) True pr have "st1 = st2" by (simp add: Let_def)
      with s2 show ?thesis by simp
    next
      case None
      let ?st3 = "if i + ?c < int (length urls) then st2\<lparr>world := emit (Delay (delayMs config)) (world st2)\<rparr> else st2"
      from None Suc.prems(1) True pr
      have loop: "batch_loop fuel env config certSlug jobId onProgress urls (i + ?c) ?st3 = Some (x, st1)"
        by (simp add: Let_def)
      have "0 < successCount ?st3 + failedCount ?st3 \<longrightarrow>
          stored (db (world ?st3)) = Some (successCount ?st3 + failedCount ?st3)"
        using s2 by (simp add: emit_def)
      from Suc.IH [OF loop this] show ?thesis .
    qed
  qed
qed

lemma scrapeCertification_stored:
  assumes run: "scrapeCertification fuel env config cert jobId onProgress w = Some (Inr s, w1)"
    and applied: "\<And>p d. stored (snd (update_job env jobId (JobProgress p) d)) = Some (urls_processed p)"
    and kept: "\<And>d. stored (snd (update_job env jobId JobCompleted d)) = stored d"
  shows "stored (db w1) = Some (total_urls s)"
proof -
  define urls where "urls = fst (getCertificationPages env (cert_url cert) w)"
  define st0 where "st0 = \<lparr>world = start_world env cert jobId w, successCount = 0, failedCount = 0\<rparr>"
  define out where "out = batch_loop fuel env config (slug cert) jobId onProgress urls 0 st0"
  have run': "(case out of
        None \<Rightarrow> None
      | Some (Some e, st) \<Rightarrow> Some (Inl e, world st)
      | Some (None, st) \<Rightarrow>
          Some (Inr \<lparr>succeeded = successCount st, failed = failedCount st, total_urls = length urls\<rparr>,
                updateJob env jobId JobCompleted (world st))) = Some (Inr s, w1)"
    using run unfolding scrapeCertification_unfold out_def st0_def urls_def .
  obtain st where loop: "out = Some (None, st)"
    and s: "s = \<lparr>succeeded = successCount st, failed = failedCount st, total_urls = length urls\<rparr>"
    and w1: "w1 = updateJob env jobId JobCompleted (world st)"
  proof (cases out)
    case None
    with run' show ?thesis by simp
  next
    case (Some p)
    obtain x st where p: "p = (x, st)" by (cases p)
    with Some run' that show ?thesis by (cases x) auto
  qed
  note sm = scrapeCertification_summary [OF run urls_def]
  have cnt: "successCount st + failedCount st = length urls"
  proof -
    have "length (filter (\<lambda>u. success (scrapePage env u)) urls)
        + length (filter (\<lambda>u. \<not> success (scrapePage env u)) urls) = length urls"
      by (rule sum_length_filter_compl)
    with sm(2,3) s show ?thesis by simp
  qed
  have "0 < successCount st0 + failedCount st0 \<longrightarrow>
      stored (db (world st0)) = Some (successCount st0 + failedCount st0)"
    by (simp add: st0_def)
  from batch_loop_stored [OF applied loop [unfolded out_def] this] cnt sm(5)
  have "stored (db (world st)) = Some (length urls)" by simp
  then show ?thesis by (simp add: w1 s updateJob_db kept)
qed

lemma stored_processed_applied:
  "stored_processed j (snd (update_job site_env j (JobProgress p) d)) = Some (urls_processed p)"
  "stored_processed j (snd (update_job site_env j JobCompleted d)) = stored_processed j d"
  by (simp_all add: stored_processed_def site_env_def mem_env_def)

text \<open>
  Claim C10, as the code has it. When \<open>scrapeCertification\<close> returns its summary, \<open>total\<close>
  is the number of discovered URLs, \<open>success\<close> and \<open>failed\<close> are the numbers of URLs
  whose scrape succeeded and failed, they add up to \<open>total\<close>, and the last progress
  payload sent has \<open>urls_processed\<close> equal to \<open>total\<close>. Let \<open>stored\<close> read what the job
  record holds as \<open>urls_processed\<close> in a state of the store: where the store applies every
  progress update it is sent for the job, and the update that marks the job completed
  leaves that column as it is, the job record ends with \<open>urls_processed\<close> equal to
  \<open>total\<close>. With a positive concurrency and a callback that does not throw, 51
  iterations of the outer loop are enough for the run to return.
\<close>

theorem scrapeCertification_counts:
  "(scrapeCertification fuel env config cert jobId onProgress w = Some (Inr s, w1) \<longrightarrow>
      (let urls = fst (getCertificationPages env (cert_url cert) w)
       in total_urls s = length urls
          \<and> succeeded s + failed s = total_urls s
          \<and> succeeded s = length (filter (\<lambda>u. success (scrapePage env u)) urls)
          \<and> failed s = length (filter (\<lambda>u. \<not> success (scrapePage env u)) urls)
          \<and> progress_updates (trace w1) \<noteq> []
          \<and> urls_processed (last (progress_updates (trace w1))) = total_urls s))
   \<and> (scrapeCertification fuel env config cert jobId onProgress w = Some (Inr s, w1)
        \<and> (\<forall>p d. stored (snd (update_job env jobId (JobProgress p) d)) = Some (urls_processed p))
        \<and> (\<forall>d. stored (snd (update_job env jobId JobCompleted d)) = stored d) \<longrightarrow>
      stored (db w1) = Some (total_urls s))
   \<and> (0 < concurrency config \<and> quiet onProgress \<and> 50 < fuel \<longrightarrow>
        (\<exists>s w1. scrapeCertification fuel env config cert jobId onProgress w = Some (Inr s, w1)))"
proof -
  let ?urls = "fst (getCertificationPages env (cert_url cert) w)"
  let ?rs = "map (scrapePage env) ?urls"
  have a: "total_urls s = length ?urls
          \<and> succeeded s + failed s = total_urls s
          \<and> succeeded s = length (filter (\<lambda>u. success (scrapePage env u)) ?urls)
          \<and> failed s = length (filter (\<lambda>u. \<not> success (scrapePage env u)) ?urls)
          \<and> progress_updates (trace w1) \<noteq> []
          \<and> urls_processed (last (progress_updates (trace w1))) = total_urls s"
    if run: "scrapeCertification fuel env config cert jobId onProgress w = Some (Inr s, w1)"
  proof -
    define urls where "urls = ?urls"
    define rs where "rs = map (scrapePage env) urls"
    define n where "n = length urls"
    define ups where "ups = map (progress_after n rs) [1..<Suc n]"
    from scrapeCertification_completed [OF run urls_def rs_def]
    have t: "total_urls s = n" and sc: "succeeded s = length (filter success rs)"
      and fc: "failed s = length (filter (\<lambda>r. \<not> success r) rs)"
      and pu: "progress_updates (trace w1) = progress_updates (trace w) @ ups"
      by (simp_all add: n_def ups_def)
    have n: "0 < n"
      using getCertificationPages_length(1) [of env "cert_url cert" w] by (simp add: n_def urls_def)
    have "length (filter success rs) + length (filter (\<lambda>r. \<not> success r) rs) = length rs"
      by (rule sum_length_filter_compl)
    then have sum: "succeeded s + failed s = n" by (simp add: sc fc rs_def n_def)
    from n have "[1..<Suc n] = [1..<n] @ [n]" by (cases n) simp_all
    then have "ups = map (progress_after n rs) [1..<n] @ [progress_after n rs n]"
      by (simp add: ups_def)
    then have "ups \<noteq> []" and "last ups = progress_after n rs n" by simp_all
    then have lst: "progress_updates (trace w1) \<noteq> []"
      "urls_processed (last (progress_updates (trace w1))) = n"
      by (simp_all add: pu progress_after_def)
    from t sum sc fc lst show ?thesis
      unfolding rs_def filter_results n_def urls_def by simp
  qed
  have b: "\<exists>s w1. scrapeCertification fuel env config cert jobId onProgress w = Some (Inr s, w1)"
    if "0 < concurrency config" "quiet onProgress" "50 < fuel"
    using that getCertificationPages_length(2) [of env "cert_url cert" w]
    by (intro scrapeCertification_total) auto
  have c: "stored (db w1) = Some (total_urls s)"
    if "scrapeCertification fuel env config cert jobId onProgress w = Some (Inr s, w1)"
      "\<forall>p d. stored (snd (update_job env jobId (JobProgress p) d)) = Some (urls_processed p)"
      "\<forall>d. stored (snd (update_job env jobId JobCompleted d)) = stored d"
    using that by (intro scrapeCertification_stored) auto
  from a b c show ?thesis unfolding Let_def by blast
qed

theorem scrapeCertification_counts_witness:
  "0 < concurrency (new_FCCScraper no_config) \<and> quiet None
   \<and> fst (getCertificationPages site_env (cert_url fcc_cert) seeded_store) = [root_url, lesson_url, missing_url]
   \<and> map_option (\<lambda>rw. (fst rw, stored_processed ''job-1'' (db (snd rw))))
       (scrapeCertification 51 site_env (new_FCCScraper no_config) fcc_cert ''job-1'' None seeded_store)
       = Some (Inr \<lparr>succeeded = 2, failed = 1, total_urls = 3\<rparr>, Some 3)"
proof -
  have c: "0 < concurrency (new_FCCScraper no_config)" "quiet None"
    by (simp_all add: new_FCCScraper_def no_config_def or_default_def quiet_def)
  have e: "axios_get site_env = site_get" "cheerio_load site_env = site_load"
    by (simp_all add: site_env_def mem_env_def)
  have u: "fst (getCertificationPages site_env (cert_url fcc_cert) seeded_store)
      = [root_url, lesson_url, missing_url]"
    by (simp add: fcc_cert_def site_urls [OF e])
  note ok = site_results(1-3) [OF e]
  from scrapeCertification_counts [of 51 site_env "new_FCCScraper no_config" fcc_cert "''job-1''" None
      seeded_store "\<lparr>succeeded = 0, failed = 0, total_urls = 0\<rparr>" seeded_store "\<lambda>d. None"] c
  obtain s w1 where run: "scrapeCertification 51 site_env (new_FCCScraper no_config) fcc_cert ''job-1'' None
      seeded_store = Some (Inr s, w1)"
    by force
  with scrapeCertification_counts [of 51 site_env "new_FCCScraper no_config" fcc_cert "''job-1''" None
      seeded_store s w1 "stored_processed ''job-1''"] u ok
  have "succeeded s = 2 \<and> failed s = 1 \<and> total_urls s = 3
      \<and> stored_processed ''job-1'' (db w1) = Some (total_urls s)"
    by (simp add: Let_def stored_processed_applied)
  then have "s = \<lparr>succeeded = 2, failed = 1, total_urls = 3\<rparr> \<and> stored_processed ''job-1'' (db w1) = Some 3"
    by (cases s) simp
  with run c u show ?thesis by simp
qed

text \<open>
  The claim as the specification states it (the \<open>urls_processed\<close> the job record holds at
  the end equals \<open>total\<close>) fails over a store whose updates of the job record throw:
  \<open>updateJob\<close> catches the error, prints it, and the run goes on to its summary of three
  URLs, the last progress payload sent saying three, while the job record holds none.
\<close>

theorem job_record_may_lag:
  "map_option (\<lambda>rw. (fst rw, map urls_processed (progress_updates (trace (snd rw))),
        stored_processed ''job-1'' (db (snd rw)), length (filter is_console_error (trace (snd rw)))))
     (scrapeCertification 51 failing_job_env (new_FCCScraper no_config) fcc_cert ''job-1'' None seeded_store)
   = Some (Inr \<lparr>succeeded = 2, failed = 1, total_urls = 3\<rparr>, [1, 2, 3], None, 5)"
proof -
  define env where "env = failing_job_env"
  have f: "axios_get env = site_get" "cheerio_load env = site_load"
    "select_source_id env = select_source_id site_env" "select_content env = select_content site_env"
    "insert_content env = insert_content site_env" "update_content env = update_content site_env"
    "update_job env = (\<lambda>j u d. (Inl (Error ''fetch failed''), d))"
    by (simp_all add: env_def failing_job_env_def site_env_def mem_env_def)
  have u: "root_url \<noteq> lesson_url" by (simp add: root_url_def lesson_url_def)
  have "map_option (\<lambda>rw. (fst rw, map urls_processed (progress_updates (trace (snd rw))),
        stored_processed ''job-1'' (db (snd rw)), length (filter is_console_error (trace (snd rw)))))
     (scrapeCertification 51 env (new_FCCScraper no_config) fcc_cert ''job-1'' None seeded_store)
   = Some (Inr \<lparr>succeeded = 2, failed = 1, total_urls = 3\<rparr>, [1, 2, 3], None, 5)"
    by (simp add: scrapeCertification_unfold fcc_cert_def site_urls [OF f(1,2)] site_results [OF f(1,2)]
        default_config batch_loop_single start_world_def process_result_def Let_def saveContent_def
        updateJob_def store_write_def emit_def resolve_source_def falsy_def seeded_store_def f
        site_env_def mem_env_def single_def FCC_BASE_def string_of_three contentData_fields u
        stored_processed_def)
  then show ?thesis unfolding env_def .
qed

end
